theory Spec2Isabelle
  imports Complex_Main "HOL-Library.Word"
begin

section \<open>The ROI codec of api/utils/roi.py\<close>

text \<open>
  The theory embeds the ImageJ ROI encoder and decoder of \<^verbatim>\<open>src/api/utils/roi.py\<close>:
  the ROI classes, the header tables, \<^verbatim>\<open>struct.pack\<close>/\<^verbatim>\<open>struct.unpack\<close> for the
  big-endian formats the file uses, the seek-and-write file object of the encoder, the
  header reader and the two archive functions.

  Python values. Integers are \<open>int\<close>. A byte string is a list of \<open>8 word\<close>. A text
  string (\<^verbatim>\<open>str\<close>) that comes from outside, the name of a ROI or a path, is a list of
  code points, \<open>unicode\<close>; \<open>ustr\<close> turns a literal into one. The field names, type names
  and messages written in the program are \<open>string\<close> literals. A float appears in
  two forms: \<open>PyFloat v\<close> is a float whose value is the integer \<open>v\<close> (all the encoder
  ever builds: \<^verbatim>\<open>float(c)\<close> of an integer coordinate and the literals 0.0, 1.0, 4.0), and
  \<open>PySingle p\<close> is a float read back by \<^verbatim>\<open>struct.unpack('>f', ...)\<close>, kept as the IEEE-754
  single-precision bit pattern \<open>p\<close> it was read from.

  Exceptions are values of \<open>error\<close>; a function that can raise returns \<open>error + 'a\<close>.
\<close>

type_synonym byte = "8 word"

datatype error =
    IOError string
  | Exception string
  | NotImplementedError string
  | AttributeError string
  | KeyError
  | ValueError
  | OverflowError
  | struct_error
  | FileExistsError
  | FileNotFoundError
  | TypeError
  | UnicodeEncodeError

datatype pyval = PyInt int | PyFloat int | PySingle "32 word" | PyBytes "byte list"

type_synonym unicode = "nat list"

definition ustr :: "string \<Rightarrow> unicode" where
  "ustr s = map of_char s"

definition bind :: "error + 'a \<Rightarrow> ('a \<Rightarrow> error + 'b) \<Rightarrow> error + 'b" where
  "bind m f = (case m of Inl e \<Rightarrow> Inl e | Inr a \<Rightarrow> f a)"

subsection \<open>Floats\<close>

text \<open>
  \<open>round_to_bits p m\<close> rounds the natural number \<open>m\<close> to \<open>p\<close> significant bits, to
  nearest and ties to even: the rounding of \<^verbatim>\<open>float(int)\<close> (\<open>p = 53\<close>) and of packing a
  float with format \<^verbatim>\<open>f\<close> (\<open>p = 24\<close>). \<open>bitlen m\<close> is Python's \<^verbatim>\<open>m.bit_length()\<close>.
\<close>

fun bitlen :: "nat \<Rightarrow> nat" where
  "bitlen m = (if m = 0 then 0 else Suc (bitlen (m div 2)))"

declare bitlen.simps [simp del]

definition round_to_bits :: "nat \<Rightarrow> nat \<Rightarrow> nat" where
  "round_to_bits p m =
     (if bitlen m \<le> p then m
      else let s = bitlen m - p; q = m div 2 ^ s; r = m mod 2 ^ s; h = 2 ^ (s - 1)
           in (if r > h \<or> (r = h \<and> odd q) then q + 1 else q) * 2 ^ s)"

text \<open>\<^verbatim>\<open>float(c)\<close> for an integer \<open>c\<close>: OverflowError beyond the range of a double.\<close>

definition py_float :: "int \<Rightarrow> error + pyval" where
  "py_float c =
     (let r = round_to_bits 53 (nat \<bar>c\<bar>)
      in if r \<ge> 2 ^ 1024 then Inl OverflowError else Inr (PyFloat (sgn c * int r)))"

text \<open>
  The single-precision bit pattern of a float with integer value \<open>v\<close>: sign bit, biased
  exponent, 23 fraction bits, after rounding to 24 significant bits. A value that rounds
  to \<open>2 ^ 128\<close> or more does not fit (\<^verbatim>\<open>float too large to pack with f format\<close>).
\<close>

definition single_bits :: "int \<Rightarrow> error + nat" where
  "single_bits v =
     (let r = round_to_bits 24 (nat \<bar>v\<bar>)
      in if r \<ge> 2 ^ 128 then Inl OverflowError
         else if r = 0 then Inr 0
         else let e = bitlen r - 1;
                  frac = (r * 2 ^ 23) div 2 ^ e - 2 ^ 23
              in Inr ((if v < 0 then 2 ^ 31 else 0) + (e + 127) * 2 ^ 23 + frac))"


subsection \<open>struct.pack and struct.unpack, big-endian\<close>

text \<open>
  The format codes of the header tables: \<^verbatim>\<open>'Ns'\<close> (a byte string of \<open>N\<close> bytes), \<^verbatim>\<open>'h'\<close>
  (int16), \<^verbatim>\<open>'b'\<close> (int8), \<^verbatim>\<open>'i'\<close> (int32), \<^verbatim>\<open>'f'\<close> (float32).
\<close>

datatype fmt = Fs nat | Fh | Fb | Fi | Ff

text \<open>The \<open>k\<close> low bytes of an integer, most significant first (two's complement).\<close>

fun be_bytes :: "nat \<Rightarrow> int \<Rightarrow> byte list" where
  "be_bytes 0 v = []"
| "be_bytes (Suc k) v = be_bytes k (v div 256) @ [word_of_int v]"

definition be_uint :: "byte list \<Rightarrow> int" where
  "be_uint bs = foldl (\<lambda>a b. a * 256 + uint b) 0 bs"

definition be_sint :: "byte list \<Rightarrow> int" where
  "be_sint bs =
     (let u = be_uint bs; w = 2 ^ (8 * length bs)
      in if 2 * u \<ge> w then u - w else u)"

definition pack_int :: "nat \<Rightarrow> pyval \<Rightarrow> error + byte list" where
  "pack_int k v =
     (case v of
        PyInt i \<Rightarrow>
          if - (2 ^ (8 * k - 1)) \<le> i \<and> i < 2 ^ (8 * k - 1) then Inr (be_bytes k i)
          else Inl struct_error
      | _ \<Rightarrow> Inl struct_error)"

definition pack_f :: "pyval \<Rightarrow> error + byte list" where
  "pack_f v =
     (case v of
        PyFloat x \<Rightarrow> bind (single_bits x) (\<lambda>n. Inr (be_bytes 4 (int n)))
      | PyInt i \<Rightarrow>
          bind (py_float i) (\<lambda>x. case x of
             PyFloat y \<Rightarrow> bind (single_bits y) (\<lambda>n. Inr (be_bytes 4 (int n)))
           | _ \<Rightarrow> Inl struct_error)
      | PySingle p \<Rightarrow> Inr (be_bytes 4 (uint p))
      | PyBytes _ \<Rightarrow> Inl struct_error)"

text \<open>\<^verbatim>\<open>struct.pack('>' + var_type, value)\<close>. Format \<^verbatim>\<open>'Ns'\<close> truncates or zero-pads.\<close>

definition pack :: "fmt \<Rightarrow> pyval \<Rightarrow> error + byte list" where
  "pack f v =
     (case f of
        Fs n \<Rightarrow> (case v of
                   PyBytes bs \<Rightarrow> Inr (take n bs @ replicate (n - length bs) 0)
                 | _ \<Rightarrow> Inl struct_error)
      | Fh \<Rightarrow> pack_int 2 v
      | Fb \<Rightarrow> pack_int 1 v
      | Fi \<Rightarrow> pack_int 4 v
      | Ff \<Rightarrow> pack_f v)"

definition fmt_size :: "fmt \<Rightarrow> nat" where
  "fmt_size f = (case f of Fs n \<Rightarrow> n | Fh \<Rightarrow> 2 | Fb \<Rightarrow> 1 | Fi \<Rightarrow> 4 | Ff \<Rightarrow> 4)"

text \<open>
  \<^verbatim>\<open>struct.unpack('>' + var_type, binary)[0]\<close>: struct.error unless the buffer has exactly
  the size of the format.
\<close>

definition unpack :: "fmt \<Rightarrow> byte list \<Rightarrow> error + pyval" where
  "unpack f bs =
     (if length bs \<noteq> fmt_size f then Inl struct_error
      else case f of
        Fs n \<Rightarrow> Inr (PyBytes bs)
      | Ff \<Rightarrow> Inr (PySingle (word_of_int (be_uint bs)))
      | _ \<Rightarrow> Inr (PyInt (be_sint bs)))"

text \<open>
  Python's \<^verbatim>\<open>data[a:b]\<close> on a byte string, for integer bounds: a negative bound counts
  from the end, and both are clamped to the string.
\<close>

definition py_slice :: "'a list \<Rightarrow> int \<Rightarrow> int \<Rightarrow> 'a list" where
  "py_slice xs a b =
     (let n = int (length xs);
          a' = (if a < 0 then max 0 (a + n) else min a n);
          b' = (if b < 0 then max 0 (b + n) else min b n)
      in take (nat b' - nat a') (drop (nat a') xs))"

subsection \<open>The ROI classes\<close>

record ROIObject =
  top :: int
  left :: int
  bottom :: int
  right :: int
  name :: unicode
  position :: int

record ROIRect = ROIObject +
  arc :: int

record 'c ROIShape = ROIObject +
  x_coords :: "'c list"
  y_coords :: "'c list"

definition width :: "'a ROIObject_scheme \<Rightarrow> int" where
  "width r = right r - left r"

definition height :: "'a ROIObject_scheme \<Rightarrow> int" where
  "height r = bottom r - top r"

text \<open>
  \<open>ROIShape.__init__\<close>. A bound that is not given (\<open>None\<close>) comes from the coordinate
  arrays: \<open>cmin\<close> and \<open>cmax\<close> are the \<^verbatim>\<open>.min()\<close> and \<^verbatim>\<open>.max()\<close> methods of the container
  the coordinates are in.
\<close>

definition or_else :: "'a option \<Rightarrow> (error + 'a) \<Rightarrow> error + 'a" where
  "or_else v d = (case v of Some x \<Rightarrow> Inr x | None \<Rightarrow> d)"

definition ROIShape_init ::
  "('c list \<Rightarrow> error + int) \<Rightarrow> ('c list \<Rightarrow> error + int) \<Rightarrow> 'c list \<Rightarrow> 'c list \<Rightarrow>
   unicode \<Rightarrow> int \<Rightarrow> int option \<Rightarrow> int option \<Rightarrow> int option \<Rightarrow> int option \<Rightarrow>
   error + 'c ROIShape" where
  "ROIShape_init cmin cmax xs ys nm pos top0 left0 bottom0 right0 =
     bind (or_else top0 (cmin xs)) (\<lambda>t.
     bind (or_else left0 (cmin xs)) (\<lambda>l.
     bind (or_else bottom0 (cmax xs)) (\<lambda>b.
     bind (or_else right0 (cmax ys)) (\<lambda>r.
       Inr \<lparr>top = t, left = l, bottom = b, right = r, name = nm, position = pos,
            x_coords = xs, y_coords = ys\<rparr>))))"

text \<open>
  The two containers: a numpy integer array, whose \<^verbatim>\<open>min\<close> and \<^verbatim>\<open>max\<close> raise ValueError
  when it is empty, and a Python list, which has neither method.
\<close>

fun ndarray_min :: "int list \<Rightarrow> error + int" where
  "ndarray_min [] = Inl ValueError"
| "ndarray_min (x # xs) = Inr (fold min xs x)"

fun ndarray_max :: "int list \<Rightarrow> error + int" where
  "ndarray_max [] = Inl ValueError"
| "ndarray_max (x # xs) = Inr (fold max xs x)"

definition list_min :: "'c list \<Rightarrow> error + int" where
  "list_min xs = Inl (AttributeError ''min'')"

definition list_max :: "'c list \<Rightarrow> error + int" where
  "list_max xs = Inl (AttributeError ''max'')"

text \<open>\<open>ROIShape.get_shapeArray\<close>: the loop over \<^verbatim>\<open>zip(x_coords, y_coords)\<close>, then pop and append.\<close>

fun shape_loop :: "(int \<times> int) list \<Rightarrow> pyval list \<Rightarrow> error + pyval list" where
  "shape_loop [] acc = Inr acc"
| "shape_loop ((x, y) # ps) acc =
     bind (py_float y) (\<lambda>fy.
     bind (py_float x) (\<lambda>fx.
       shape_loop ps (acc @ [fy, fx, PyFloat 1])))"

definition get_shapeArray :: "int ROIShape \<Rightarrow> error + pyval list" where
  "get_shapeArray s =
     bind (shape_loop (zip (x_coords s) (y_coords s)) [PyFloat 0]) (\<lambda>arr.
       Inr (butlast arr @ [PyFloat 4]))"

text \<open>\<open>ROIShape.get_coords_from_shapeArray\<close>: the values at the indices 2 and 1 modulo 3.\<close>

definition get_coords_from_shapeArray :: "'a list \<Rightarrow> 'a list \<times> 'a list" where
  "get_coords_from_shapeArray shapeArray =
     (map snd (filter (\<lambda>(i, v). i mod 3 = 2) (enumerate 0 shapeArray)),
      map snd (filter (\<lambda>(i, v). i mod 3 = 1) (enumerate 0 shapeArray)))"

text \<open>
  An object handed to the encoder: one of the two classes, or any other object with a
  \<^verbatim>\<open>type\<close> attribute and the fields of the base class.
\<close>

datatype 'c roi = Rect ROIRect | Shape "'c ROIShape" | Other string ROIObject

fun roi_type :: "'c roi \<Rightarrow> string" where
  "roi_type (Rect r) = ''rect''"
| "roi_type (Shape s) = ''shape''"
| "roi_type (Other t r) = t"

fun roi_base :: "'c roi \<Rightarrow> ROIObject" where
  "roi_base (Rect r) = ROIObject.truncate r"
| "roi_base (Shape s) = ROIObject.truncate s"
| "roi_base (Other t r) = r"

subsection \<open>The header tables of ROIFileObject\<close>

definition header1_fields :: "(string \<times> fmt \<times> nat) list" where
  "header1_fields =
     [(''MAGIC'', Fs 4, 0),
      (''VERSION_OFFSET'', Fh, 4),
      (''TYPE'', Fb, 6),
      (''TOP'', Fh, 8),
      (''LEFT'', Fh, 10),
      (''BOTTOM'', Fh, 12),
      (''RIGHT'', Fh, 14),
      (''N_COORDINATES'', Fh, 16),
      (''X1'', Ff, 18),
      (''Y1'', Ff, 22),
      (''X2'', Ff, 26),
      (''Y2'', Ff, 30),
      (''XD'', Ff, 18),
      (''YD'', Ff, 22),
      (''WIDTHD'', Ff, 26),
      (''HEIGHTD'', Ff, 30),
      (''STROKE_WIDTH'', Fh, 34),
      (''SHAPE_ROI_SIZE'', Fi, 36),
      (''STROKE_COLOR'', Fi, 40),
      (''FILL_COLOR'', Fi, 44),
      (''SUBTYPE'', Fh, 48),
      (''OPTIONS'', Fh, 50),
      (''ARROW_STYLE'', Fb, 52),
      (''FLOAT_PARAM'', Fb, 52),
      (''POINT_TYPE'', Fb, 52),
      (''ARROW_HEAD_SIZE'', Fb, 53),
      (''ROUNDED_RECT_ARC_SIZE'', Fh, 54),
      (''POSITION'', Fi, 56),
      (''HEADER2_OFFSET'', Fi, 60),
      (''COORDINATES'', Fi, 64)]"

definition header2_fields :: "(string \<times> fmt \<times> nat) list" where
  "header2_fields =
     [(''C_POSITION'', Fi, 4),
      (''Z_POSITION'', Fi, 8),
      (''T_POSITION'', Fi, 12),
      (''NAME_OFFSET'', Fi, 16),
      (''NAME_LENGTH'', Fi, 20),
      (''OVERLAY_LABEL_COLOR'', Fi, 24),
      (''OVERLAY_FONT_SIZE'', Fh, 28),
      (''AVAILABLE_BYTE1'', Fb, 30),
      (''IMAGE_OPACITY'', Fb, 31),
      (''IMAGE_SIZE'', Fi, 32),
      (''FLOAT_STROKE_WIDTH'', Ff, 36),
      (''ROI_PROPS_OFFSET'', Fi, 40),
      (''ROI_PROPS_LENGTH'', Fi, 44)]"

definition header1_size :: nat where
  "header1_size = 64"

definition header2_size :: nat where
  "header2_size = 64"

definition roi_types_rev :: "(string \<times> int) list" where
  "roi_types_rev =
     [(''polygon'', 0), (''rect'', 1), (''oval'', 2), (''line'', 3), (''freeline'', 4),
      (''polyline'', 5), (''no_roi'', 6), (''freehand'', 7), (''traced'', 8), (''angle'', 9),
      (''point'', 10)]"

definition roi_types :: "(int \<times> string) list" where
  "roi_types =
     [(0, ''polygon''), (1, ''rect''), (2, ''oval''), (3, ''line''), (4, ''freeline''),
      (5, ''polyline''), (6, ''no_roi''), (7, ''freehand''), (8, ''traces''), (9, ''angle''),
      (10, ''point'')]"

text \<open>
  \<open>_type_size\<close>: the size of the format character, times the first digit of the format
  string when it has one.
\<close>

fun first_digit :: "nat \<Rightarrow> nat" where
  "first_digit n = (if n < 10 then n else first_digit (n div 10))"

declare first_digit.simps [simp del]

definition type_size :: "fmt \<Rightarrow> nat" where
  "type_size f = (case f of Fs n \<Rightarrow> 1 * first_digit n | Fh \<Rightarrow> 2 | Fb \<Rightarrow> 1 | Fi \<Rightarrow> 4 | Ff \<Rightarrow> 4)"

record HeaderTuple =
  htype :: fmt
  hsize :: nat
  hoffset :: nat

text \<open>
  The two dictionaries built by \<open>__init__\<close>: in a dict comprehension a later entry with
  the same key replaces an earlier one.
\<close>

definition header_dict :: "(string \<times> fmt \<times> nat) list \<Rightarrow> string \<rightharpoonup> HeaderTuple" where
  "header_dict es =
     map_of (rev (map (\<lambda>(n, t, off). (n, \<lparr>htype = t, hsize = type_size t, hoffset = off\<rparr>))
                      es))"

definition header1_dict :: "string \<rightharpoonup> HeaderTuple" where
  "header1_dict = header_dict header1_fields"

definition header2_dict :: "string \<rightharpoonup> HeaderTuple" where
  "header2_dict = header_dict header2_fields"

subsection \<open>ROIEncoder\<close>

text \<open>
  The file object of the encoder is the byte string it holds. \<open>write_at off bs buf\<close> is
  \<^verbatim>\<open>seek(off)\<close> followed by \<^verbatim>\<open>write(bs)\<close>: bytes in place are overwritten, a write that
  starts beyond the end fills the gap with zeros, and a write of no bytes changes nothing.
\<close>

definition write_at :: "nat \<Rightarrow> byte list \<Rightarrow> byte list \<Rightarrow> byte list" where
  "write_at off bs buf =
     (if bs = [] then buf
      else let buf' = buf @ replicate (off - length buf) 0
           in take off buf' @ bs @ drop (off + length bs) buf')"

record encoder =
  f_obj :: "byte list"
  header2_offset :: nat

text \<open>
  A method of the encoder takes the encoder and returns it with the exception it raised,
  if any: what was written before the exception stays in the file.
\<close>

type_synonym step = "encoder \<Rightarrow> encoder \<times> error option"

definition andthen :: "step \<Rightarrow> step \<Rightarrow> step" where
  "andthen s1 s2 st = (case s1 st of (st', None) \<Rightarrow> s2 st' | (st', Some e) \<Rightarrow> (st', Some e))"

definition raise :: "error \<Rightarrow> step" where
  "raise e st = (st, Some e)"

fun steps :: "step list \<Rightarrow> step" where
  "steps [] st = (st, None)"
| "steps (s # ss) st = andthen s (steps ss) st"

definition write_var :: "nat \<Rightarrow> fmt \<Rightarrow> pyval \<Rightarrow> step" where
  "write_var off var_type v st =
     (case pack var_type v of
        Inl e \<Rightarrow> (st, Some e)
      | Inr binary \<Rightarrow> (st\<lparr>f_obj := write_at off binary (f_obj st)\<rparr>, None))"

definition write_header :: "string \<Rightarrow> pyval \<Rightarrow> step" where
  "write_header header_name v st =
     (case header1_dict header_name of
        Some header \<Rightarrow> write_var (hoffset header) (htype header) v st
      | None \<Rightarrow>
         (case header2_dict header_name of
            Some header \<Rightarrow> write_var (hoffset header + header2_offset st) (htype header) v st
          | None \<Rightarrow> (st, Some (Exception (''Header variable '' @ header_name @ '' not found'')))))"

text \<open>
  \<^verbatim>\<open>bytes(name, 'utf-8')\<close>: one to four bytes for a code point, and UnicodeEncodeError for
  a surrogate (\<^verbatim>\<open>0xD800\<close> to \<^verbatim>\<open>0xDFFF\<close>), which the strict codec refuses. No \<^verbatim>\<open>str\<close> holds a
  number from \<^verbatim>\<open>0x110000\<close> on: \<^verbatim>\<open>chr\<close> raises ValueError for it, and so does the model.
\<close>

definition utf8_char :: "nat \<Rightarrow> error + byte list" where
  "utf8_char n =
     (if n < 128 then Inr [of_nat n]
      else if n < 2048 then Inr [of_nat (192 + n div 64), of_nat (128 + n mod 64)]
      else if 55296 \<le> n \<and> n < 57344 then Inl UnicodeEncodeError
      else if n < 65536 then
        Inr [of_nat (224 + n div 4096), of_nat (128 + n div 64 mod 64), of_nat (128 + n mod 64)]
      else if n < 1114112 then
        Inr [of_nat (240 + n div 262144), of_nat (128 + n div 4096 mod 64),
             of_nat (128 + n div 64 mod 64), of_nat (128 + n mod 64)]
      else Inl ValueError)"

fun utf8 :: "unicode \<Rightarrow> error + byte list" where
  "utf8 [] = Inr []"
| "utf8 (c # cs) = bind (utf8_char c) (\<lambda>b. bind (utf8 cs) (\<lambda>bs. Inr (b @ bs)))"

definition write_name :: "'c roi \<Rightarrow> step" where
  "write_name roi_obj st =
     (let off = header2_size + header2_offset st;
          nm = name (roi_base roi_obj)
      in steps
           [write_header ''NAME_OFFSET'' (PyInt (int off)),
            write_header ''NAME_LENGTH'' (PyInt (int (length nm))),
            (\<lambda>st. case utf8 nm of
                    Inl e \<Rightarrow> (st, Some e)
                  | Inr binary \<Rightarrow> write_var off (Fs (length nm)) (PyBytes binary) st)] st)"

definition type_tag :: "string \<Rightarrow> (int \<Rightarrow> step) \<Rightarrow> step" where
  "type_tag t k = (case map_of roi_types_rev t of None \<Rightarrow> raise KeyError | Some v \<Rightarrow> k v)"

definition write_roi_rect :: "'c roi \<Rightarrow> step" where
  "write_roi_rect roi_obj =
     steps
       [type_tag (roi_type roi_obj) (\<lambda>t. write_header ''TYPE'' (PyInt t)),
        write_header ''TOP'' (PyInt (top (roi_base roi_obj))),
        write_header ''LEFT'' (PyInt (left (roi_base roi_obj))),
        write_header ''BOTTOM'' (PyInt (bottom (roi_base roi_obj))),
        write_header ''RIGHT'' (PyInt (right (roi_base roi_obj))),
        write_header ''POSITION'' (PyInt (position (roi_base roi_obj))),
        write_header ''HEADER2_OFFSET'' (PyInt (int header1_size)),
        write_name roi_obj]"

text \<open>
  The loop of \<open>_write_roi_shape\<close> over the floats, from \<open>base\<close> in steps of 4 bytes.
\<close>

fun write_floats :: "nat \<Rightarrow> pyval list \<Rightarrow> step" where
  "write_floats base [] st = (st, None)"
| "write_floats base (f # fs) st = andthen (write_var base Ff f) (write_floats (base + 4) fs) st"

definition write_roi_shape :: "int roi \<Rightarrow> step" where
  "write_roi_shape roi_obj st =
     (case roi_obj of
        Shape s \<Rightarrow>
          (case get_shapeArray s of
             Inl e \<Rightarrow> (st, Some e)
           | Inr shapeArray \<Rightarrow>
               steps
                 [type_tag ''rect'' (\<lambda>t. write_header ''TYPE'' (PyInt t)),
                  write_header ''TOP'' (PyInt (top s)),
                  write_header ''LEFT'' (PyInt (left s)),
                  write_header ''BOTTOM'' (PyInt (bottom s)),
                  write_header ''RIGHT'' (PyInt (right s)),
                  write_header ''POSITION'' (PyInt (position s)),
                  write_header ''SHAPE_ROI_SIZE'' (PyInt (int (length shapeArray))),
                  (\<lambda>st. write_floats (header2_offset st) shapeArray st),
                  (\<lambda>st. (st\<lparr>header2_offset := header2_offset st + 4 * length shapeArray\<rparr>,
                          None)),
                  (\<lambda>st. write_header ''HEADER2_OFFSET'' (PyInt (int (header2_offset st))) st),
                  write_name roi_obj] st)
      | _ \<Rightarrow> (st, Some (AttributeError ''get_shapeArray'')))"

text \<open>
  The methods \<^verbatim>\<open>_write_roi_<type>\<close> that exist, found by \<^verbatim>\<open>getattr\<close>; ten of them only
  raise NotImplementedError.
\<close>

definition unimplemented :: "(string \<times> string) list" where
  "unimplemented =
     [(''polygon'', ''polygon''), (''oval'', ''oval''), (''line'', ''line''),
      (''freeline'', ''freeline''), (''polyline'', ''polyline''), (''no_roi'', ''no roi''),
      (''freehand'', ''freehand''), (''traced'', ''traced''), (''angle'', ''angle''),
      (''point'', ''point'')]"

definition roi_writer :: "int roi \<Rightarrow> step" where
  "roi_writer roi_obj =
     (let t = roi_type roi_obj
      in if t = ''rect'' then write_roi_rect roi_obj
         else if t = ''shape'' then write_roi_shape roi_obj
         else case map_of unimplemented t of
                Some w \<Rightarrow> raise (NotImplementedError (''Writing roi type '' @ w @ '' is not implemented''))
              | None \<Rightarrow> raise (AttributeError (''_write_roi_'' @ t)))"

text \<open>
  \<open>ROIEncoder.write\<close>, on the file it has just opened: the 128 zero bytes, the magic, the
  version, then the writer of the type. The result is the encoder, whose \<open>f_obj\<close> holds
  what is in the file, and the exception if one was raised.
\<close>

definition magic :: "byte list" where
  "magic = [73, 111, 117, 116]"

definition ROIEncoder_write :: "int roi \<Rightarrow> encoder \<times> error option" where
  "ROIEncoder_write roi_obj =
     steps
       [write_var 0 (Fs 128) (PyBytes (replicate 128 0)),
        write_header ''MAGIC'' (PyBytes magic),
        write_header ''VERSION_OFFSET'' (PyInt 225),
        roi_writer roi_obj]
       \<lparr>f_obj = [], header2_offset = header1_size\<rparr>"

subsection \<open>os.path\<close>

text \<open>The functions of \<^verbatim>\<open>posixpath\<close> that the decoder and the archive writer call.\<close>

definition rfind :: "'a \<Rightarrow> 'a list \<Rightarrow> int" where
  "rfind c p =
     (if c \<in> set p then int (length p) - 1 - int (length (takeWhile (\<lambda>x. x \<noteq> c) (rev p)))
      else - 1)"

definition sep :: nat where
  "sep = of_char CHR ''/''"

definition extsep :: nat where
  "extsep = of_char CHR ''.''"

definition basename :: "unicode \<Rightarrow> unicode" where
  "basename p = drop (nat (rfind sep p + 1)) p"

definition splitext :: "unicode \<Rightarrow> unicode \<times> unicode" where
  "splitext p =
     (let sepIndex = rfind sep p; dotIndex = rfind extsep p
      in if dotIndex > sepIndex \<and>
            (\<exists>c \<in> set (py_slice p (sepIndex + 1) dotIndex). c \<noteq> extsep)
         then (take (nat dotIndex) p, drop (nat dotIndex) p)
         else (p, []))"

subsection \<open>ROIDecoder\<close>

type_synonym header = "string \<rightharpoonup> pyval"

definition get_var :: "byte list \<Rightarrow> int \<Rightarrow> nat \<Rightarrow> fmt \<Rightarrow> error + pyval" where
  "get_var data off var_size var_type = unpack var_type (py_slice data off (off + int var_size))"

text \<open>\<^verbatim>\<open>self.header[k]\<close>, for an entry that holds an integer.\<close>

definition header_int :: "header \<Rightarrow> string \<Rightarrow> error + int" where
  "header_int h k =
     (case h k of None \<Rightarrow> Inl KeyError | Some (PyInt v) \<Rightarrow> Inr v | Some _ \<Rightarrow> Inl TypeError)"

definition get_header :: "byte list \<Rightarrow> header \<Rightarrow> string \<Rightarrow> error + pyval" where
  "get_header data h header_name =
     (case header1_dict header_name of
        Some header \<Rightarrow> get_var data (int (hoffset header)) (hsize header) (htype header)
      | None \<Rightarrow>
         (case header2_dict header_name of
            Some header \<Rightarrow>
              bind (header_int h ''HEADER2_OFFSET'') (\<lambda>h2.
                get_var data (int (hoffset header) + h2) (hsize header) (htype header))
          | None \<Rightarrow> Inl (Exception (''Header variable '' @ header_name @ '' not found''))))"

definition set_header :: "byte list \<Rightarrow> header \<Rightarrow> string \<Rightarrow> error + header" where
  "set_header data h header_name =
     bind (get_header data h header_name) (\<lambda>v. Inr (h(header_name \<mapsto> v)))"

fun set_headers :: "byte list \<Rightarrow> string list \<Rightarrow> header \<Rightarrow> error + header" where
  "set_headers data [] h = Inr h"
| "set_headers data (k # ks) h = bind (set_header data h k) (set_headers data ks)"

definition to_read_h1 :: "string list" where
  "to_read_h1 =
     [''VERSION_OFFSET'', ''TYPE'', ''SUBTYPE'', ''TOP'', ''LEFT'', ''BOTTOM'', ''RIGHT'',
      ''N_COORDINATES'', ''STROKE_WIDTH'', ''SHAPE_ROI_SIZE'', ''STROKE_COLOR'', ''FILL_COLOR'',
      ''SUBTYPE'', ''OPTIONS'', ''POSITION'', ''HEADER2_OFFSET'']"

definition to_read_h2 :: "string list" where
  "to_read_h2 = map fst header2_fields"

definition set_zero :: "string list" where
  "set_zero = [''OVERLAY_LABEL_COLOR'', ''OVERLAY_FONT_SIZE'', ''IMAGE_OPACITY'']"

definition read_header :: "byte list \<Rightarrow> error + header" where
  "read_header data =
     bind (get_header data Map.empty ''MAGIC'') (\<lambda>m.
       if m \<noteq> PyBytes magic then Inl (IOError ''Invalid ROI file, magic number mismatch'')
       else bind (set_headers data (to_read_h1 @ to_read_h2) Map.empty) (\<lambda>h.
              Inr (fold (\<lambda>k h. h(k \<mapsto> PyInt 0)) set_zero h)))"

definition read_roi_rect :: "byte list \<Rightarrow> unicode \<Rightarrow> header \<Rightarrow> error + pyval roi" where
  "read_roi_rect data nm h =
     bind (set_header data h ''ROUNDED_RECT_ARC_SIZE'') (\<lambda>h.
     bind (header_int h ''ROUNDED_RECT_ARC_SIZE'') (\<lambda>a.
     bind (set_headers data [''TOP'', ''LEFT'', ''BOTTOM'', ''RIGHT'', ''POSITION''] h) (\<lambda>h.
     bind (header_int h ''TOP'') (\<lambda>t.
     bind (header_int h ''LEFT'') (\<lambda>l.
     bind (header_int h ''BOTTOM'') (\<lambda>b.
     bind (header_int h ''RIGHT'') (\<lambda>r.
     bind (header_int h ''POSITION'') (\<lambda>pos.
       Inr (Rect \<lparr>top = t, left = l, bottom = b, right = r, name = nm, position = pos,
                  arc = a\<rparr>)))))))))"

text \<open>The loop of \<open>_read_roi_shape\<close>: \<open>n\<close> floats from \<open>base\<close>, in steps of 4 bytes.\<close>

fun read_floats :: "byte list \<Rightarrow> int \<Rightarrow> nat \<Rightarrow> error + pyval list" where
  "read_floats data base 0 = Inr []"
| "read_floats data base (Suc n) =
     bind (get_var data base 4 Ff) (\<lambda>v.
     bind (read_floats data (base + 4) n) (\<lambda>vs. Inr (v # vs)))"

definition read_roi_shape :: "byte list \<Rightarrow> unicode \<Rightarrow> header \<Rightarrow> error + pyval roi" where
  "read_roi_shape data nm h =
     bind (header_int h ''TYPE'') (\<lambda>ty.
       if Some ty \<noteq> map_of roi_types_rev ''rect'' then Inl (Exception ''Invalid composite ROI type'')
       else
         bind (header_int h ''TOP'') (\<lambda>t.
         bind (header_int h ''LEFT'') (\<lambda>l.
         bind (header_int h ''BOTTOM'') (\<lambda>b.
         bind (header_int h ''RIGHT'') (\<lambda>r.
         bind (header_int h ''POSITION'') (\<lambda>pos.
         bind (header_int h ''SHAPE_ROI_SIZE'') (\<lambda>n.
         bind (read_floats data 64 (nat n)) (\<lambda>shapeArray.
           case get_coords_from_shapeArray shapeArray of (xs, ys) \<Rightarrow>
             bind (ROIShape_init list_min list_max xs ys nm pos (Some t) (Some l) (Some b) (Some r))
               (\<lambda>s. Inr (Shape s))))))))))"

text \<open>
  The methods \<^verbatim>\<open>_read_roi_<type>\<close> of the decoder, for a type name of the table
  \<open>_roi_types\<close>: a name without a method (\<^verbatim>\<open>'traces'\<close>) is the AttributeError that
  \<open>read\<close> turns into NotImplementedError.
\<close>

definition roi_reader :: "string \<Rightarrow> byte list \<Rightarrow> unicode \<Rightarrow> header \<Rightarrow> error + pyval roi" where
  "roi_reader t data nm h =
     (if t = ''rect'' then read_roi_rect data nm h
      else if t = ''shape'' then read_roi_shape data nm h
      else case map_of unimplemented t of
             Some w \<Rightarrow> Inl (NotImplementedError (''Reading roi type '' @ w @ '' is not implemented''))
           | None \<Rightarrow> Inl (NotImplementedError (''Reading roi type '' @ t @ '' not implemented'')))"

text \<open>
  \<open>ROIDecoder.read\<close>: \<open>roi_path\<close> is the path of the file, or the name of the archive
  member, and \<open>data\<close> the bytes read from it.
\<close>

definition ROIDecoder_read :: "unicode \<Rightarrow> byte list \<Rightarrow> error + pyval roi" where
  "ROIDecoder_read roi_path data =
     (let nm = fst (splitext (basename roi_path))
      in bind (read_header data) (\<lambda>h.
         bind (header_int h ''SHAPE_ROI_SIZE'') (\<lambda>n.
           if n > 0 then read_roi_shape data nm h
           else bind (header_int h ''TYPE'') (\<lambda>ty.
                  case map_of roi_types ty of
                    None \<Rightarrow> Inl KeyError
                  | Some t \<Rightarrow> roi_reader t data nm h))))"

subsection \<open>Vocabulary of the statements\<close>

definition int_at :: "byte list \<Rightarrow> nat \<Rightarrow> nat \<Rightarrow> int" where
  "int_at data off k = be_sint (take k (drop off data))"

definition h1_first :: "string list" where
  "h1_first = [''VERSION_OFFSET'', ''TYPE'', ''SUBTYPE'', ''TOP'', ''LEFT'', ''BOTTOM'', ''RIGHT'',
      ''N_COORDINATES'', ''STROKE_WIDTH'', ''SHAPE_ROI_SIZE'', ''STROKE_COLOR'', ''FILL_COLOR'',
      ''SUBTYPE'', ''OPTIONS'', ''POSITION'']"

definition header_of :: "byte list \<Rightarrow> header \<Rightarrow> bool" where
  "header_of data h \<longleftrightarrow>
     h ''TYPE'' = Some (PyInt (int_at data 6 1)) \<and>
     h ''TOP'' = Some (PyInt (int_at data 8 2)) \<and>
     h ''LEFT'' = Some (PyInt (int_at data 10 2)) \<and>
     h ''BOTTOM'' = Some (PyInt (int_at data 12 2)) \<and>
     h ''RIGHT'' = Some (PyInt (int_at data 14 2)) \<and>
     h ''SHAPE_ROI_SIZE'' = Some (PyInt (int_at data 36 4)) \<and>
     h ''POSITION'' = Some (PyInt (int_at data 56 4)) \<and>
     h ''HEADER2_OFFSET'' = Some (PyInt (int_at data 60 4))"

definition name_bytes :: "unicode \<Rightarrow> byte list" where
  "name_bytes nm =
     (case utf8 nm of
        Inl e \<Rightarrow> []
      | Inr binary \<Rightarrow> take (length nm) binary @ replicate (length nm - length binary) 0)"

definition rect_file :: "ROIRect \<Rightarrow> byte list" where
  "rect_file r =
     write_at 128 (name_bytes (name r))
      (write_at 84 (be_bytes 4 (int (length (name r))))
      (write_at 80 (be_bytes 4 128)
      (write_at 60 (be_bytes 4 64)
      (write_at 56 (be_bytes 4 (position r))
      (write_at 14 (be_bytes 2 (right r))
      (write_at 12 (be_bytes 2 (bottom r))
      (write_at 10 (be_bytes 2 (left r))
      (write_at 8 (be_bytes 2 (top r))
      (write_at 6 (be_bytes 1 1)
      (write_at 4 (be_bytes 2 225)
      (write_at 0 magic
      (write_at 0 (replicate 128 0) []))))))))))))"

definition int16 :: "int \<Rightarrow> bool" where
  "int16 v \<longleftrightarrow> - 32768 \<le> v \<and> v < 32768"

definition int32 :: "int \<Rightarrow> bool" where
  "int32 v \<longleftrightarrow> - 2147483648 \<le> v \<and> v < 2147483648"

text \<open>The code points that UTF-8 encodes: all but the surrogates.\<close>

definition scalar_value :: "nat \<Rightarrow> bool" where
  "scalar_value c \<longleftrightarrow> c < 55296 \<or> (57344 \<le> c \<and> c < 1114112)"

definition encodable :: "'a ROIObject_scheme \<Rightarrow> bool" where
  "encodable r \<longleftrightarrow> int16 (top r) \<and> int16 (left r) \<and> int16 (bottom r) \<and> int16 (right r) \<and>
     int32 (position r) \<and> int32 (int (length (name r))) \<and> list_all scalar_value (name r)"

definition float_value :: "int \<Rightarrow> int" where
  "float_value c = sgn c * int (round_to_bits 53 (nat \<bar>c\<bar>))"


definition header_only :: "byte list" where
  "header_only = magic @ [0, 225] @ replicate 122 0"

text \<open>
  Two buffers with the magic, the type tag 2 at byte 6, SHAPE_ROI_SIZE = 1 and
  HEADER2_OFFSET = 64: one of 192 bytes, and one that ends with header 1.
\<close>

definition composite_oval :: "byte list" where
  "composite_oval =
     magic @ [0, 225, 2] @ replicate 29 0 @ [0, 0, 0, 1] @ replicate 20 0 @ [0, 0, 0, 64] @
     replicate 64 0 @ replicate 64 0"

definition truncated_composite :: "byte list" where
  "truncated_composite =
     magic @ [0, 225, 2] @ replicate 29 0 @ [0, 0, 0, 1] @ replicate 20 0 @ [0, 0, 0, 64]"

text \<open>The rectangle of the examples.\<close>

definition rect_example :: ROIRect where
  "rect_example = \<lparr>top = 10, left = 5, bottom = 50, right = 40, name = ustr ''roi-0001-0000'',
     position = 1, arc = 0\<rparr>"

text \<open>
  The slice \<^verbatim>\<open>data[a:a+s]\<close> has \<open>s\<close> bytes: it lies in the buffer, counted from the start
  or, for negative bounds, from the end.
\<close>

definition in_buffer :: "byte list \<Rightarrow> int \<Rightarrow> nat \<Rightarrow> bool" where
  "in_buffer data a s \<longleftrightarrow>
     (0 \<le> a \<and> a + int s \<le> int (length data)) \<or> (a + int s < 0 \<and> 0 \<le> a + int (length data))"




text \<open>
  The values of the shape array, the shapes for which every step of the encoder succeeds,
  and the file the encoder then writes.
\<close>

definition array_values :: "int ROIShape \<Rightarrow> int list" where
  "array_values s =
     butlast (0 # concat (map (\<lambda>(x, y). [y, x, 1]) (zip (x_coords s) (y_coords s)))) @ [4]"




section \<open>Lemmas\<close>

lemma bind_Inr [simp]: "bind (Inr a) f = f a"
  by (simp add: bind_def)

lemma bind_Inl [simp]: "bind (Inl e) f = Inl e"
  by (simp add: bind_def)

lemma bind_eq_Inr: "bind m f = Inr y \<longleftrightarrow> (\<exists>x. m = Inr x \<and> f x = Inr y)"
  by (cases m) simp_all

lemma bind_eq_Inl: "bind m f = Inl e \<longleftrightarrow> m = Inl e \<or> (\<exists>x. m = Inr x \<and> f x = Inl e)"
  by (cases m) simp_all

lemma length_be_bytes [simp]: "length (be_bytes k v) = k"
  by (induction k arbitrary: v) simp_all

lemma be_uint_snoc: "be_uint (bs @ [b]) = be_uint bs * 256 + uint b"
  by (simp add: be_uint_def)

lemma be_uint_be_bytes: "be_uint (be_bytes k v) = v mod 256 ^ k"
proof (induction k arbitrary: v)
  case 0
  then show ?case by (simp add: be_uint_def)
next
  case (Suc k)
  have "be_uint (be_bytes (Suc k) v) = (v div 256) mod 256 ^ k * 256 + v mod 256"
    by (simp add: be_uint_snoc Suc uint_word_of_int)
  also have "\<dots> = v mod 256 ^ Suc k"
    using zmod_zmult2_eq [of "256 ^ k" v 256] by simp
  finally show ?case .
qed

lemma be_sint_be_bytes:
  assumes "0 < k" "- (2 ^ (8 * k - 1)) \<le> v" "v < 2 ^ (8 * k - 1)"
  shows "be_sint (be_bytes k v) = v"
proof -
  have w: "(256::int) ^ k = 2 * 2 ^ (8 * k - 1)"
  proof -
    have "(256::int) ^ k = 2 ^ (8 * k)" by (simp add: power_mult)
    also have "8 * k = Suc (8 * k - 1)" using assms(1) by simp
    finally show ?thesis by simp
  qed
  have w2: "(2::int) ^ (8 * k) = 256 ^ k" by (simp add: power_mult)
  show ?thesis
  proof (cases "0 \<le> v")
    case True
    then have "v mod 256 ^ k = v" using assms(3) w by simp
    then show ?thesis using True assms(3) w
      by (simp add: be_sint_def be_uint_be_bytes Let_def w2)
  next
    case False
    then have "0 \<le> v + 256 ^ k" "v + 256 ^ k < 256 ^ k"
      using assms(2) w by simp_all
    then have "(v + 256 ^ k) mod 256 ^ k = v + 256 ^ k"
      by (rule mod_pos_pos_trivial)
    then have "v mod 256 ^ k = v + 256 ^ k"
      by simp
    then show ?thesis using False assms(2) w
      by (simp add: be_sint_def be_uint_be_bytes Let_def w2)
  qed
qed

lemma take_drop_py_slice: "py_slice xs (int a) (int a + int k) = take k (drop a xs)"
  by (auto simp: py_slice_def Let_def min_def nat_add_distrib)

lemma length_write_at:
  "length (write_at off bs buf) = (if bs = [] then length buf else max (length buf) (off + length bs))"
  by (auto simp: write_at_def Let_def)

lemma read_write_at_same: "take (length bs) (drop off (write_at off bs buf)) = bs"
  by (auto simp: write_at_def Let_def)

lemma length_padded: "off \<le> length (buf @ replicate (off - length buf) (0::byte))"
  by simp

lemma drop_padded:
  "off \<le> a \<Longrightarrow> drop a (buf @ replicate (off - length buf) (0::byte)) = drop a buf"
  by simp

lemma read_write_at_after:
  assumes "off + length bs \<le> a"
  shows "drop a (write_at off bs buf) = drop a buf"
proof (cases "bs = []")
  case True
  then show ?thesis by (simp add: write_at_def)
next
  case False
  define buf' where "buf' = buf @ replicate (off - length buf) (0::byte)"
  have l: "length (take off buf') = off"
    by (simp add: buf'_def)
  have "write_at off bs buf = take off buf' @ bs @ drop (off + length bs) buf'"
    using False by (simp add: write_at_def Let_def buf'_def)
  then have "drop a (write_at off bs buf) = drop (a - off) (bs @ drop (off + length bs) buf')"
    using assms l by simp
  also have "\<dots> = drop (a - off - length bs) (drop (off + length bs) buf')"
    using assms by simp
  also have "\<dots> = drop a buf'"
    using assms by simp
  also have "\<dots> = drop a buf"
    unfolding buf'_def using assms by (intro drop_padded) simp
  finally show ?thesis .
qed

lemma read_write_at_before:
  assumes "a + k \<le> off" "a + k \<le> length buf"
  shows "take k (drop a (write_at off bs buf)) = take k (drop a buf)"
proof (cases "bs = []")
  case True
  then show ?thesis by (simp add: write_at_def)
next
  case False
  define buf' where "buf' = buf @ replicate (off - length buf) (0::byte)"
  have l: "length (take off buf') = off"
    by (simp add: buf'_def)
  have w: "write_at off bs buf = take off buf' @ (bs @ drop (off + length bs) buf')"
    using False by (simp add: write_at_def Let_def buf'_def)
  have "take k (drop a (write_at off bs buf)) = take k (drop a (take off buf'))"
    unfolding w using assms l by simp
  also have "\<dots> = take k (drop a buf')"
    using assms by (simp add: drop_take min_def)
  also have "\<dots> = take k (drop a buf)"
    using assms by (simp add: buf'_def)
  finally show ?thesis .
qed

lemma first_digit_small [simp]: "n < 10 \<Longrightarrow> first_digit n = n"
  by (simp add: first_digit.simps)

lemmas dict_defs = header1_dict_def header2_dict_def header_dict_def header1_fields_def
  header2_fields_def type_size_def

lemma h1_lookup:
  "header1_dict ''MAGIC'' = Some \<lparr>htype = Fs 4, hsize = 4, hoffset = 0\<rparr>"
  "header1_dict ''VERSION_OFFSET'' = Some \<lparr>htype = Fh, hsize = 2, hoffset = 4\<rparr>"
  "header1_dict ''TYPE'' = Some \<lparr>htype = Fb, hsize = 1, hoffset = 6\<rparr>"
  "header1_dict ''TOP'' = Some \<lparr>htype = Fh, hsize = 2, hoffset = 8\<rparr>"
  "header1_dict ''LEFT'' = Some \<lparr>htype = Fh, hsize = 2, hoffset = 10\<rparr>"
  "header1_dict ''BOTTOM'' = Some \<lparr>htype = Fh, hsize = 2, hoffset = 12\<rparr>"
  "header1_dict ''RIGHT'' = Some \<lparr>htype = Fh, hsize = 2, hoffset = 14\<rparr>"
  "header1_dict ''SHAPE_ROI_SIZE'' = Some \<lparr>htype = Fi, hsize = 4, hoffset = 36\<rparr>"
  "header1_dict ''ROUNDED_RECT_ARC_SIZE'' = Some \<lparr>htype = Fh, hsize = 2, hoffset = 54\<rparr>"
  "header1_dict ''POSITION'' = Some \<lparr>htype = Fi, hsize = 4, hoffset = 56\<rparr>"
  "header1_dict ''HEADER2_OFFSET'' = Some \<lparr>htype = Fi, hsize = 4, hoffset = 60\<rparr>"
  by (simp_all add: dict_defs)

lemma h1_none:
  "header1_dict ''NAME_OFFSET'' = None"
  "header1_dict ''NAME_LENGTH'' = None"
  by (simp_all add: dict_defs)

lemma h2_lookup:
  "header2_dict ''NAME_OFFSET'' = Some \<lparr>htype = Fi, hsize = 4, hoffset = 16\<rparr>"
  "header2_dict ''NAME_LENGTH'' = Some \<lparr>htype = Fi, hsize = 4, hoffset = 20\<rparr>"
  by (simp_all add: dict_defs)

lemma get_var_nat:
  "0 \<le> off \<Longrightarrow> get_var data off k f = unpack f (take k (drop (nat off) data))"
  using take_drop_py_slice [of data "nat off" k] by (simp add: get_var_def)

lemma unpack_int:
  "length bs = k \<Longrightarrow> unpack Fh bs = (if k = 2 then Inr (PyInt (be_sint bs)) else Inl struct_error)"
  "length bs = k \<Longrightarrow> unpack Fb bs = (if k = 1 then Inr (PyInt (be_sint bs)) else Inl struct_error)"
  "length bs = k \<Longrightarrow> unpack Fi bs = (if k = 4 then Inr (PyInt (be_sint bs)) else Inl struct_error)"
  "length bs = k \<Longrightarrow> unpack Ff bs = (if k = 4 then Inr (PySingle (word_of_int (be_uint bs))) else Inl struct_error)"
  "length bs = k \<Longrightarrow> unpack (Fs n) bs = (if k = n then Inr (PyBytes bs) else Inl struct_error)"
  by (auto simp: unpack_def fmt_size_def)

lemma set_headers_append:
  "set_headers data (ks @ ks') h = bind (set_headers data ks h) (set_headers data ks')"
  by (induction ks arbitrary: h) (simp_all add: bind_def split: sum.splits)

lemma h1_lookup_more:
  "header1_dict ''SUBTYPE'' = Some \<lparr>htype = Fh, hsize = 2, hoffset = 48\<rparr>"
  "header1_dict ''N_COORDINATES'' = Some \<lparr>htype = Fh, hsize = 2, hoffset = 16\<rparr>"
  "header1_dict ''STROKE_WIDTH'' = Some \<lparr>htype = Fh, hsize = 2, hoffset = 34\<rparr>"
  "header1_dict ''STROKE_COLOR'' = Some \<lparr>htype = Fi, hsize = 4, hoffset = 40\<rparr>"
  "header1_dict ''FILL_COLOR'' = Some \<lparr>htype = Fi, hsize = 4, hoffset = 44\<rparr>"
  "header1_dict ''OPTIONS'' = Some \<lparr>htype = Fh, hsize = 2, hoffset = 50\<rparr>"
  by (simp_all add: dict_defs)

lemma h2_lookup_all:
  "header2_dict ''C_POSITION'' = Some \<lparr>htype = Fi, hsize = 4, hoffset = 4\<rparr>"
  "header2_dict ''Z_POSITION'' = Some \<lparr>htype = Fi, hsize = 4, hoffset = 8\<rparr>"
  "header2_dict ''T_POSITION'' = Some \<lparr>htype = Fi, hsize = 4, hoffset = 12\<rparr>"
  "header2_dict ''OVERLAY_LABEL_COLOR'' = Some \<lparr>htype = Fi, hsize = 4, hoffset = 24\<rparr>"
  "header2_dict ''OVERLAY_FONT_SIZE'' = Some \<lparr>htype = Fh, hsize = 2, hoffset = 28\<rparr>"
  "header2_dict ''AVAILABLE_BYTE1'' = Some \<lparr>htype = Fb, hsize = 1, hoffset = 30\<rparr>"
  "header2_dict ''IMAGE_OPACITY'' = Some \<lparr>htype = Fb, hsize = 1, hoffset = 31\<rparr>"
  "header2_dict ''IMAGE_SIZE'' = Some \<lparr>htype = Fi, hsize = 4, hoffset = 32\<rparr>"
  "header2_dict ''FLOAT_STROKE_WIDTH'' = Some \<lparr>htype = Ff, hsize = 4, hoffset = 36\<rparr>"
  "header2_dict ''ROI_PROPS_OFFSET'' = Some \<lparr>htype = Fi, hsize = 4, hoffset = 40\<rparr>"
  "header2_dict ''ROI_PROPS_LENGTH'' = Some \<lparr>htype = Fi, hsize = 4, hoffset = 44\<rparr>"
  by (simp_all add: dict_defs)

lemma get_header_cong:
  "h ''HEADER2_OFFSET'' = h' ''HEADER2_OFFSET'' \<Longrightarrow> get_header data h k = get_header data h' k"
  by (simp add: get_header_def header_int_def split: option.splits)

lemma set_headers_eq:
  assumes "''HEADER2_OFFSET'' \<notin> set ks"
  shows "set_headers data ks h0 = Inr h \<longleftrightarrow>
     (\<forall>k\<in>set ks. \<not> isl (get_header data h0 k)) \<and>
     h = (\<lambda>k. if k \<in> set ks then Some (projr (get_header data h0 k)) else h0 k)"
  using assms
proof (induction ks arbitrary: h0)
  case Nil
  then show ?case by auto
next
  case (Cons k ks)
  show ?case
  proof (cases "get_header data h0 k")
    case (Inl e)
    then show ?thesis by (simp add: set_header_def)
  next
    case (Inr v)
    have c: "get_header data (h0(k \<mapsto> v)) k' = get_header data h0 k'" for k'
      using Cons.prems by (intro get_header_cong) auto
    have s: "set_headers data (k # ks) h0 = set_headers data ks (h0(k \<mapsto> v))"
      using Inr by (simp add: set_header_def)
    have f: "(\<lambda>k'. if k' \<in> set ks then Some (projr (get_header data h0 k')) else (h0(k \<mapsto> v)) k')
        = (\<lambda>k'. if k' \<in> set (k # ks) then Some (projr (get_header data h0 k')) else h0 k')"
      using Inr by (auto simp: fun_eq_iff)
    have "''HEADER2_OFFSET'' \<notin> set ks"
      using Cons.prems by simp
    from Cons.IH [OF this, of "h0(k \<mapsto> v)"]
    have "set_headers data ks (h0(k \<mapsto> v)) = Inr h \<longleftrightarrow>
      (\<forall>k'\<in>set ks. \<not> isl (get_header data h0 k')) \<and>
      h = (\<lambda>k'. if k' \<in> set (k # ks) then Some (projr (get_header data h0 k')) else h0 k')"
      unfolding c f .
    then show ?thesis
      unfolding s using Inr by simp
  qed
qed

lemma unpack_simps:
  "unpack Fh bs = (if length bs = 2 then Inr (PyInt (be_sint bs)) else Inl struct_error)"
  "unpack Fb bs = (if length bs = 1 then Inr (PyInt (be_sint bs)) else Inl struct_error)"
  "unpack Fi bs = (if length bs = 4 then Inr (PyInt (be_sint bs)) else Inl struct_error)"
  "unpack Ff bs = (if length bs = 4 then Inr (PySingle (word_of_int (be_uint bs))) else Inl struct_error)"
  "unpack (Fs n) bs = (if length bs = n then Inr (PyBytes bs) else Inl struct_error)"
  by (auto simp: unpack_def fmt_size_def)

lemma to_read_split: "to_read_h1 @ to_read_h2 = h1_first @ ''HEADER2_OFFSET'' # to_read_h2"
  by (simp add: to_read_h1_def h1_first_def)

lemma h2o_notin: "''HEADER2_OFFSET'' \<notin> set h1_first" "''HEADER2_OFFSET'' \<notin> set to_read_h2"
  by (simp_all add: h1_first_def to_read_h2_def header2_fields_def)

lemma get_header1:
  "header1_dict k = Some t \<Longrightarrow>
   get_header data h k = unpack (htype t) (take (hsize t) (drop (hoffset t) data))"
  by (simp add: get_header_def get_var_nat)

lemmas gh1 = h1_lookup [THEN get_header1] h1_lookup_more [THEN get_header1]

lemma h1_first_ok:
  "(\<forall>k\<in>set h1_first. \<not> isl (get_header data h k)) \<longleftrightarrow> 60 \<le> length data"
  apply (simp add: h1_first_def gh1 unpack_simps)
  apply (auto simp: min_def split: if_splits)
  done

lemma h1_none_h2:
  "header1_dict ''C_POSITION'' = None"
  "header1_dict ''Z_POSITION'' = None"
  "header1_dict ''T_POSITION'' = None"
  "header1_dict ''OVERLAY_LABEL_COLOR'' = None"
  "header1_dict ''OVERLAY_FONT_SIZE'' = None"
  "header1_dict ''AVAILABLE_BYTE1'' = None"
  "header1_dict ''IMAGE_OPACITY'' = None"
  "header1_dict ''IMAGE_SIZE'' = None"
  "header1_dict ''FLOAT_STROKE_WIDTH'' = None"
  "header1_dict ''ROI_PROPS_OFFSET'' = None"
  "header1_dict ''ROI_PROPS_LENGTH'' = None"
  by (simp_all add: dict_defs)

lemma get_header2:
  "header1_dict k = None \<Longrightarrow> header2_dict k = Some t \<Longrightarrow>
   h ''HEADER2_OFFSET'' = Some (PyInt h2) \<Longrightarrow> 0 \<le> h2 \<Longrightarrow>
   get_header data h k = unpack (htype t) (take (hsize t) (drop (hoffset t + nat h2) data))"
  by (simp add: get_header_def header_int_def get_var_nat nat_add_distrib)

lemmas gh2 =
  get_header2 [OF h1_none(1) h2_lookup(1)] get_header2 [OF h1_none(2) h2_lookup(2)]
  get_header2 [OF h1_none_h2(1) h2_lookup_all(1)] get_header2 [OF h1_none_h2(2) h2_lookup_all(2)]
  get_header2 [OF h1_none_h2(3) h2_lookup_all(3)] get_header2 [OF h1_none_h2(4) h2_lookup_all(4)]
  get_header2 [OF h1_none_h2(5) h2_lookup_all(5)] get_header2 [OF h1_none_h2(6) h2_lookup_all(6)]
  get_header2 [OF h1_none_h2(7) h2_lookup_all(7)] get_header2 [OF h1_none_h2(8) h2_lookup_all(8)]
  get_header2 [OF h1_none_h2(9) h2_lookup_all(9)] get_header2 [OF h1_none_h2(10) h2_lookup_all(10)]
  get_header2 [OF h1_none_h2(11) h2_lookup_all(11)]

lemma h2_ok:
  assumes "h ''HEADER2_OFFSET'' = Some (PyInt h2)" "0 \<le> h2" "nat h2 + 48 \<le> length data"
  shows "\<forall>k\<in>set to_read_h2. \<not> isl (get_header data h k)"
  using assms
  by (simp add: to_read_h2_def header2_fields_def gh2 [where h=h and ?h2.0=h2, OF assms(1,2)] unpack_simps)

lemma read_header_split:
  "read_header data = Inr h \<longleftrightarrow>
     length data \<ge> 4 \<and> take 4 data = magic \<and>
     (\<exists>ha v hc. set_headers data h1_first Map.empty = Inr ha \<and>
        get_header data ha ''HEADER2_OFFSET'' = Inr v \<and>
        set_headers data to_read_h2 (ha(''HEADER2_OFFSET'' \<mapsto> v)) = Inr hc \<and>
        h = fold (\<lambda>k h. h(k \<mapsto> PyInt 0)) set_zero hc)"
  by (auto simp: read_header_def gh1 unpack_simps to_read_split set_headers_append bind_eq_Inr
      set_header_def min_def split: if_splits)

lemma read_header_fwd:
  assumes "read_header data = Inr h"
  shows "take 4 data = magic \<and> 64 \<le> length data \<and> header_of data h"
proof -
  from assms obtain ha v hc where m: "take 4 data = magic"
    and a: "set_headers data h1_first Map.empty = Inr ha"
    and b: "get_header data ha ''HEADER2_OFFSET'' = Inr v"
    and c: "set_headers data to_read_h2 (ha(''HEADER2_OFFSET'' \<mapsto> v)) = Inr hc"
    and h: "h = fold (\<lambda>k h. h(k \<mapsto> PyInt 0)) set_zero hc"
    unfolding read_header_split by blast
  from a have l: "60 \<le> length data"
    and ha: "ha = (\<lambda>k. if k \<in> set h1_first then Some (projr (get_header data Map.empty k)) else None)"
    unfolding set_headers_eq [OF h2o_notin(1)] h1_first_ok by simp_all
  from b have l4: "64 \<le> length data" and v: "v = PyInt (int_at data 60 4)"
    by (auto simp: gh1 unpack_simps int_at_def min_def split: if_splits)
  from c have hc: "hc = (\<lambda>k. if k \<in> set to_read_h2
      then Some (projr (get_header data (ha(''HEADER2_OFFSET'' \<mapsto> v)) k))
      else (ha(''HEADER2_OFFSET'' \<mapsto> v)) k)"
    unfolding set_headers_eq [OF h2o_notin(2)] by simp
  have "header_of data h"
    unfolding header_of_def h hc ha v using l4
    by (simp add: set_zero_def to_read_h2_def header2_fields_def h1_first_def gh1 unpack_simps
        int_at_def)
  with m l4 show ?thesis by simp
qed

lemma read_header_bwd:
  assumes "take 4 data = magic" "64 \<le> length data" "0 \<le> int_at data 60 4"
    "nat (int_at data 60 4) + 48 \<le> length data"
  shows "\<exists>h. read_header data = Inr h"
proof -
  define ha where "ha = (\<lambda>k. if k \<in> set h1_first then Some (projr (get_header data Map.empty k)) else None)"
  have a: "set_headers data h1_first Map.empty = Inr ha"
    unfolding set_headers_eq [OF h2o_notin(1)] h1_first_ok ha_def using assms(2) by simp
  have b: "get_header data ha ''HEADER2_OFFSET'' = Inr (PyInt (int_at data 60 4))"
    using assms(2) by (simp add: gh1 unpack_simps int_at_def)
  define hb where "hb = ha(''HEADER2_OFFSET'' \<mapsto> PyInt (int_at data 60 4))"
  have "hb ''HEADER2_OFFSET'' = Some (PyInt (int_at data 60 4))"
    by (simp add: hb_def)
  from h2_ok [where h=hb, OF this assms(3,4)]
  have "\<exists>hc. set_headers data to_read_h2 hb = Inr hc"
    unfolding set_headers_eq [OF h2o_notin(2)] by simp
  then show ?thesis
    unfolding read_header_split using a b assms(1,2) by (auto simp: hb_def)
qed

lemma pack_simps:
  "pack Fh (PyInt v) = (if - 32768 \<le> v \<and> v < 32768 then Inr (be_bytes 2 v) else Inl struct_error)"
  "pack Fb (PyInt v) = (if - 128 \<le> v \<and> v < 128 then Inr (be_bytes 1 v) else Inl struct_error)"
  "pack Fi (PyInt v) = (if - 2147483648 \<le> v \<and> v < 2147483648 then Inr (be_bytes 4 v) else Inl struct_error)"
  "pack (Fs n) (PyBytes bs) = Inr (take n bs @ replicate (n - length bs) 0)"
  by (simp_all add: pack_def pack_int_def)

lemma write_header1:
  "header1_dict k = Some t \<Longrightarrow> write_header k v st = write_var (hoffset t) (htype t) v st"
  by (simp add: write_header_def)

lemma write_header2:
  "header1_dict k = None \<Longrightarrow> header2_dict k = Some t \<Longrightarrow>
   write_header k v st = write_var (hoffset t + header2_offset st) (htype t) v st"
  by (simp add: write_header_def)

lemmas wh = h1_lookup [THEN write_header1] write_header2 [OF h1_none(1) h2_lookup(1)]
  write_header2 [OF h1_none(2) h2_lookup(2)]

lemma type_tag_rect: "type_tag ''rect'' k = k 1"
  by (simp add: type_tag_def roi_types_rev_def)

lemma ustr_simps: "ustr [] = []" "ustr (c # cs) = of_char c # ustr cs"
  by (simp_all add: ustr_def)


lemma utf8_char_Inr: "scalar_value c \<Longrightarrow> \<exists>b. utf8_char c = Inr b"
  by (auto simp: utf8_char_def scalar_value_def)

lemma utf8_char_Inl: "\<not> scalar_value c \<Longrightarrow> isl (utf8_char c)"
  by (auto simp: utf8_char_def scalar_value_def)

lemma utf8_isl: "isl (utf8 nm) \<longleftrightarrow> \<not> list_all scalar_value nm"
proof (induction nm)
  case Nil
  then show ?case by simp
next
  case (Cons c cs)
  show ?case
  proof (cases "scalar_value c")
    case True
    then obtain b where "utf8_char c = Inr b"
      using utf8_char_Inr by blast
    with True Cons show ?thesis
      by (cases "utf8 cs") simp_all
  next
    case False
    with utf8_char_Inl [OF False] show ?thesis
      by (cases "utf8_char c") simp_all
  qed
qed

lemma utf8_Inr: "list_all scalar_value nm \<Longrightarrow> \<exists>bs. utf8 nm = Inr bs"
  using utf8_isl [of nm] by (cases "utf8 nm") simp_all

lemma length_name_bytes: "list_all scalar_value nm \<Longrightarrow> length (name_bytes nm) = length nm"
  using utf8_Inr [of nm] by (auto simp: name_bytes_def)

lemma ndarray_min_eq: "ndarray_min xs = (if xs = [] then Inl ValueError else Inr (Min (set xs)))"
proof (cases xs)
  case Nil
  then show ?thesis by simp
next
  case (Cons a l)
  then show ?thesis using Min.set_eq_fold [of a l] by simp
qed

lemma ndarray_max_eq: "ndarray_max xs = (if xs = [] then Inl ValueError else Inr (Max (set xs)))"
proof (cases xs)
  case Nil
  then show ?thesis by simp
next
  case (Cons a l)
  then show ?thesis using Max.set_eq_fold [of a l] by simp
qed




lemma write_unimplemented:
  assumes "map_of unimplemented t = Some w"
  shows "ROIEncoder_write (Other t r) =
     (\<lparr>f_obj = header_only, header2_offset = 64\<rparr>,
      Some (NotImplementedError (''Writing roi type '' @ w @ '' is not implemented'')))"
proof -
  have t: "t \<noteq> ''rect''" "t \<noteq> ''shape''"
    using assms by (auto simp: unimplemented_def)
  have "write_at 4 (be_bytes 2 225) (write_at 0 magic (write_at 0 (replicate 128 0) []))
      = header_only"
    by (simp add: write_at_def magic_def header_only_def numeral_eq_Suc)
  then show ?thesis
    using t assms
    by (simp add: ROIEncoder_write_def roi_writer_def andthen_def wh write_var_def pack_simps
        header1_size_def raise_def magic_def)
qed

lemma set_headers_Inl:
  assumes "''HEADER2_OFFSET'' \<notin> set ks" "set_headers data ks h0 = Inl e"
  shows "\<exists>k\<in>set ks. get_header data h0 k = Inl e"
  using assms
proof (induction ks arbitrary: h0)
  case Nil
  then show ?case by simp
next
  case (Cons k ks)
  show ?case
  proof (cases "get_header data h0 k")
    case (Inl e')
    with Cons.prems show ?thesis by (simp add: set_header_def)
  next
    case (Inr v)
    have c: "get_header data (h0(k \<mapsto> v)) k' = get_header data h0 k'" for k'
      using Cons.prems by (intro get_header_cong) auto
    from Cons.prems Inr have "set_headers data ks (h0(k \<mapsto> v)) = Inl e"
      by (simp add: set_header_def)
    moreover have "''HEADER2_OFFSET'' \<notin> set ks"
      using Cons.prems by simp
    ultimately obtain k' where k': "k' \<in> set ks" "get_header data (h0(k \<mapsto> v)) k' = Inl e"
      using Cons.IH by blast
    from k'(2) have "get_header data h0 k' = Inl e"
      unfolding c .
    with k'(1) show ?thesis
      by auto
  qed
qed

lemma unpack_Inl: "unpack f bs = Inl e \<Longrightarrow> e = struct_error"
  by (auto simp: unpack_def split: if_splits fmt.splits)

lemma h1_first_err:
  "k \<in> set h1_first \<Longrightarrow> get_header data h k = Inl e \<Longrightarrow> e = struct_error"
  by (auto simp: h1_first_def gh1 dest: unpack_Inl)

lemma h2_err:
  assumes "h ''HEADER2_OFFSET'' = Some (PyInt h2)"
    "k \<in> set to_read_h2" "get_header data h k = Inl e"
  shows "e = struct_error"
proof -
  have "header1_dict k = None" "header2_dict k \<noteq> None"
    using assms(2) h1_none h1_none_h2 h2_lookup h2_lookup_all
    by (auto simp: to_read_h2_def header2_fields_def)
  then show ?thesis
    using assms(1,3)
    by (auto simp: get_header_def header_int_def get_var_def dest: unpack_Inl)
qed

lemma read_header_Inl:
  assumes "take 4 data = magic" "read_header data = Inl e"
  shows "e = struct_error"
proof -
  have l: "length data \<ge> 4"
    using assms(1) by (cases "length data \<ge> 4") (auto simp: magic_def)
  have lm: "length magic = 4"
    by (simp add: magic_def)
  have "read_header data = bind (set_headers data (to_read_h1 @ to_read_h2) Map.empty) (\<lambda>h.
              Inr (fold (\<lambda>k h. h(k \<mapsto> PyInt 0)) set_zero h))"
    using assms(1) by (simp add: read_header_def gh1 unpack_simps lm)
  with assms(2) have "set_headers data (to_read_h1 @ to_read_h2) Map.empty = Inl e"
    by (simp add: bind_eq_Inl)
  then have s: "bind (set_headers data h1_first Map.empty)
       (set_headers data (''HEADER2_OFFSET'' # to_read_h2)) = Inl e"
    by (simp add: to_read_split set_headers_append)
  show ?thesis
  proof (cases "set_headers data h1_first Map.empty")
    case (Inl e')
    with s have "e' = e" by simp
    with Inl set_headers_Inl [OF h2o_notin(1)] show ?thesis
      by (blast dest: h1_first_err)
  next
    case (Inr ha)
    show ?thesis
    proof (cases "get_header data ha ''HEADER2_OFFSET''")
      case (Inl e')
      with s Inr have "e' = e" by (simp add: set_header_def)
      with Inl show ?thesis by (auto simp: gh1 dest: unpack_Inl)
    next
      case v: (Inr v)
      then obtain h2 where v2: "v = PyInt h2"
        by (auto simp: gh1 unpack_simps split: if_splits)
      from s Inr v have "set_headers data to_read_h2 (ha(''HEADER2_OFFSET'' \<mapsto> v)) = Inl e"
        by (simp add: set_header_def)
      from set_headers_Inl [OF h2o_notin(2) this] show ?thesis
        using h2_err [of "ha(''HEADER2_OFFSET'' \<mapsto> v)" h2] v2 by auto
    qed
  qed
qed

lemma read_header_short:
  "length data < 4 \<Longrightarrow> read_header data = Inl struct_error"
  by (simp add: read_header_def gh1 unpack_simps)

lemma read_header_bad_magic:
  "4 \<le> length data \<Longrightarrow> take 4 data \<noteq> magic \<Longrightarrow>
   read_header data = Inl (IOError ''Invalid ROI file, magic number mismatch'')"
  by (simp add: read_header_def gh1 unpack_simps)

lemma read_header_needs_h2:
  assumes "read_header data = Inr h" "0 \<le> int_at data 60 4"
  shows "nat (int_at data 60 4) + 48 \<le> length data"
proof -
  from assms(1) obtain ha v hc where
        a: "set_headers data h1_first Map.empty = Inr ha"
    and b: "get_header data ha ''HEADER2_OFFSET'' = Inr v"
    and c: "set_headers data to_read_h2 (ha(''HEADER2_OFFSET'' \<mapsto> v)) = Inr hc"
    unfolding read_header_split by blast
  from b have v: "v = PyInt (int_at data 60 4)"
    by (auto simp: gh1 unpack_simps int_at_def split: if_splits)
  define hb where "hb = ha(''HEADER2_OFFSET'' \<mapsto> v)"
  have hb: "hb ''HEADER2_OFFSET'' = Some (PyInt (int_at data 60 4))"
    by (simp add: hb_def v)
  from c have "\<not> isl (get_header data hb ''ROI_PROPS_LENGTH'')"
    unfolding set_headers_eq [OF h2o_notin(2)] hb_def
    by (simp add: to_read_h2_def header2_fields_def)
  then show ?thesis
    using gh2(13) [where h=hb and ?h2.0="int_at data 60 4", OF hb assms(2), of data]
    by (simp add: unpack_simps split: if_splits)
qed

lemma read_floats_Inl: "read_floats data base n = Inl e \<Longrightarrow> e = struct_error"
proof (induction n arbitrary: base)
  case 0
  then show ?case by simp
next
  case (Suc n)
  then show ?case
    by (auto simp: bind_eq_Inl get_var_def dest: unpack_Inl)
qed

lemma read_roi_shape_tag:
  assumes "header_of data h"
  shows "read_roi_shape data nm h = Inl (Exception ''Invalid composite ROI type'') \<longleftrightarrow>
         int_at data 6 1 \<noteq> 1"
proof (cases "int_at data 6 1 = 1")
  case False
  with assms show ?thesis
    by (simp add: read_roi_shape_def header_of_def header_int_def roi_types_rev_def)
next
  case True
  have "read_roi_shape data nm h \<noteq> Inl (Exception ''Invalid composite ROI type'')"
  proof (cases "read_floats data 64 (nat (int_at data 36 4))")
    case (Inl e)
    then have "e = struct_error" by (rule read_floats_Inl)
    with Inl True assms show ?thesis
      by (simp add: read_roi_shape_def header_of_def header_int_def roi_types_rev_def)
  next
    case (Inr a)
    with True assms show ?thesis
      by (simp add: read_roi_shape_def header_of_def header_int_def roi_types_rev_def
          ROIShape_init_def or_else_def split: prod.splits)
  qed
  with True show ?thesis by simp
qed

lemma read_composite:
  assumes "read_header data = Inr h" "0 < int_at data 36 4"
  shows "ROIDecoder_read p data = read_roi_shape data (fst (splitext (basename p))) h"
  using assms read_header_fwd [OF assms(1)]
  by (simp add: ROIDecoder_read_def header_of_def header_int_def)

lemma be_uint_zeros: "be_uint (replicate n 0) = 0"
proof (induction n)
  case 0
  then show ?case by (simp add: be_uint_def)
next
  case (Suc n)
  have "replicate (Suc n) (0::byte) = replicate n 0 @ [0]"
    by (simp add: replicate_append_same)
  with Suc show ?case
    by (simp only: be_uint_snoc) simp
qed

lemma be_sint_zeros: "be_sint (replicate n 0) = 0"
  by (simp add: be_sint_def be_uint_zeros)

lemma header_only_facts:
  "take 4 header_only = magic" "length header_only = 128" "int_at header_only 60 4 = 0"
  by (simp_all add: header_only_def magic_def int_at_def be_sint_zeros)

lemma composite_oval_facts:
  "take 4 composite_oval = magic" "length composite_oval = 192"
  "int_at composite_oval 60 4 = 64" "int_at composite_oval 36 4 = 1" "int_at composite_oval 6 1 = 2"
  by (simp_all add: composite_oval_def magic_def int_at_def be_sint_def be_uint_def)

lemma truncated_facts:
  "take 4 truncated_composite = magic" "length truncated_composite = 64"
  "int_at truncated_composite 60 4 = 64" "int_at truncated_composite 36 4 = 1"
  "int_at truncated_composite 6 1 = 2"
  by (simp_all add: truncated_composite_def magic_def int_at_def be_sint_def be_uint_def)

lemma length_magic [simp]: "length magic = 4"
  by (simp add: magic_def)

lemma magic_not_Nil [simp]: "magic \<noteq> []"
  by (simp add: magic_def)

lemma be_bytes_Nil [simp]: "be_bytes k v = [] \<longleftrightarrow> k = 0"
  using length_be_bytes [of k v] by (cases k) auto

lemma steps_Cons_ok: "s st = (st', None) \<Longrightarrow> steps (s # ss) st = steps ss st'"
  by (simp add: andthen_def)

lemma steps_Cons_err: "s st = (st', Some e) \<Longrightarrow> steps (s # ss) st = (st', Some e)"
  by (simp add: andthen_def)

lemma write_rect:
  assumes "encodable r"
  shows "ROIEncoder_write (Rect r) = (\<lparr>f_obj = rect_file r, header2_offset = 64\<rparr>, None)"
proof -
  from assms obtain bs where "utf8 (name r) = Inr bs"
    using utf8_Inr [of "name r"] by (auto simp: encodable_def)
  with assms show ?thesis
    by (simp add: ROIEncoder_write_def roi_writer_def write_roi_rect_def write_name_def Let_def
        andthen_def wh write_var_def pack_simps header1_size_def header2_size_def type_tag_rect
        rect_file_def encodable_def int16_def int32_def name_bytes_def ROIObject.truncate_def)
qed


lemma read_write_at_same': "length bs = k \<Longrightarrow> take k (drop off (write_at off bs buf)) = bs"
  using read_write_at_same [of bs off buf] by simp

lemma take_drop_write_at_after:
  "off + length bs \<le> a \<Longrightarrow> take k (drop a (write_at off bs buf)) = take k (drop a buf)"
  by (simp add: read_write_at_after)

lemma length_write_at_ge: "n \<le> length buf \<Longrightarrow> n \<le> length (write_at off bs buf)"
  by (auto simp: length_write_at)

lemma take_write_at_before:
  "k \<le> off \<Longrightarrow> k \<le> length buf \<Longrightarrow> take k (write_at off bs buf) = take k buf"
  using read_write_at_before [of 0 k off buf bs] by simp

lemma take_write_at_same: "length bs = k \<Longrightarrow> take k (write_at 0 bs buf) = bs"
  using read_write_at_same [of bs 0 buf] by simp

lemma name_bytes_Nil: "list_all scalar_value nm \<Longrightarrow> name_bytes nm = [] \<longleftrightarrow> nm = []"
  by (metis length_0_conv length_name_bytes)

lemma pad_eq: "write_at 0 (replicate 128 0) [] = replicate 128 0"
  by (simp add: write_at_def)

lemmas peel = read_write_at_same' take_drop_write_at_after read_write_at_before
  length_write_at_ge pad_eq take_write_at_before take_write_at_same

lemma rect_file_fields:
  "take 4 (rect_file r) = magic"
  "take 1 (drop 6 (rect_file r)) = be_bytes 1 1"
  "take 2 (drop 8 (rect_file r)) = be_bytes 2 (top r)"
  "take 2 (drop 10 (rect_file r)) = be_bytes 2 (left r)"
  "take 2 (drop 12 (rect_file r)) = be_bytes 2 (bottom r)"
  "take 2 (drop 14 (rect_file r)) = be_bytes 2 (right r)"
  "take 4 (drop 36 (rect_file r)) = replicate 4 0"
  "take 2 (drop 54 (rect_file r)) = replicate 2 0"
  "take 4 (drop 56 (rect_file r)) = be_bytes 4 (position r)"
  "take 4 (drop 60 (rect_file r)) = be_bytes 4 64"
  by (simp_all add: rect_file_def peel)

lemma length_rect_file:
  "list_all scalar_value (name r) \<Longrightarrow> length (rect_file r) = 128 + length (name r)"
  by (simp add: rect_file_def length_write_at pad_eq name_bytes_Nil length_name_bytes)


lemma replicate_2: "replicate 2 x = [x, x]"
  by (simp add: numeral_2_eq_2)

lemma rect_arc_bytes: "take 2 (drop 54 (f_obj (fst (ROIEncoder_write (Rect r))))) = [0, 0]"
  by (simp add: ROIEncoder_write_def roi_writer_def write_roi_rect_def write_name_def Let_def
      andthen_def wh write_var_def pack_simps header1_size_def header2_size_def type_tag_rect
      ROIObject.truncate_def peel replicate_2 split: sum.splits)

lemma write_rect_fails:
  assumes "\<not> encodable r"
  shows "snd (ROIEncoder_write (Rect r)) \<noteq> None"
proof (cases "utf8 (name r)")
  case (Inl e)
  then show ?thesis
    by (simp add: ROIEncoder_write_def roi_writer_def write_roi_rect_def write_name_def Let_def
        andthen_def wh write_var_def pack_simps header1_size_def header2_size_def type_tag_rect
        ROIObject.truncate_def)
next
  case (Inr bs)
  then have "list_all scalar_value (name r)"
    using utf8_isl [of "name r"] by simp
  with assms Inr show ?thesis
    by (simp add: ROIEncoder_write_def roi_writer_def write_roi_rect_def write_name_def Let_def
        andthen_def wh write_var_def pack_simps header1_size_def header2_size_def type_tag_rect
        encodable_def int16_def int32_def ROIObject.truncate_def)
qed

lemma read_rect_generic:
  assumes "read_header data = Inr h" "int_at data 36 4 \<le> 0" "int_at data 6 1 = 1"
  shows "ROIDecoder_read p data =
     Inr (Rect \<lparr>top = int_at data 8 2, left = int_at data 10 2, bottom = int_at data 12 2,
                right = int_at data 14 2, name = fst (splitext (basename p)),
                position = int_at data 56 4, arc = int_at data 54 2\<rparr>)"
proof -
  from read_header_fwd [OF assms(1)]
  have l: "64 \<le> length data" and h: "header_of data h"
    by simp_all
  have "ROIDecoder_read p data = read_roi_rect data (fst (splitext (basename p))) h"
    using h assms
    by (simp add: ROIDecoder_read_def Let_def header_of_def header_int_def roi_types_def
        roi_reader_def)
  also have "\<dots> = Inr (Rect \<lparr>top = int_at data 8 2, left = int_at data 10 2, bottom = int_at data 12 2,
                right = int_at data 14 2, name = fst (splitext (basename p)),
                position = int_at data 56 4, arc = int_at data 54 2\<rparr>)"
    using l
    by (simp add: read_roi_rect_def set_header_def gh1 unpack_simps header_int_def int_at_def)
  finally show ?thesis .
qed

lemma be_sint_one: "be_sint [1] = 1"
  by (simp add: be_sint_def be_uint_def)

lemma int_at_rect_file:
  assumes "encodable r"
  shows "int_at (rect_file r) 6 1 = 1" "int_at (rect_file r) 8 2 = top r"
    "int_at (rect_file r) 10 2 = left r" "int_at (rect_file r) 12 2 = bottom r"
    "int_at (rect_file r) 14 2 = right r" "int_at (rect_file r) 36 4 = 0"
    "int_at (rect_file r) 54 2 = 0" "int_at (rect_file r) 56 4 = position r"
    "int_at (rect_file r) 60 4 = 64"
  unfolding int_at_def rect_file_fields using assms
  by (simp_all add: be_sint_be_bytes be_sint_zeros be_sint_one encodable_def int16_def int32_def)

lemma read_rect_file:
  assumes "encodable r"
  shows "ROIDecoder_read p (rect_file r) =
     Inr (Rect (r\<lparr>name := fst (splitext (basename p)), arc := 0\<rparr>))"
proof -
  have "list_all scalar_value (name r)"
    using assms by (simp add: encodable_def)
  then have "\<exists>h. read_header (rect_file r) = Inr h"
    by (intro read_header_bwd)
      (simp_all add: rect_file_fields int_at_rect_file [OF assms] length_rect_file)
  then obtain h where h: "read_header (rect_file r) = Inr h" ..
  show ?thesis
    using read_rect_generic [OF h, of p] int_at_rect_file [OF assms]
    by simp
qed






lemma write_rect_iff: "snd (ROIEncoder_write (Rect r)) = None \<longleftrightarrow> encodable r"
  using write_rect [of r] write_rect_fails [of r] by (cases "encodable r") simp_all

lemma write_name_arc: "write_name (Rect (r\<lparr>arc := a\<rparr>) :: int roi) = write_name (Rect r)"
  by (rule ext) (simp add: write_name_def ROIObject.truncate_def)

lemma write_roi_rect_arc:
  "write_roi_rect (Rect (r\<lparr>arc := a\<rparr>) :: int roi) = write_roi_rect (Rect r)"
  unfolding write_roi_rect_def
  by (subst write_name_arc) (simp add: ROIObject.truncate_def)

lemma roi_writer_arc: "roi_writer (Rect (r\<lparr>arc := a\<rparr>)) = roi_writer (Rect r)"
  unfolding roi_writer_def by (simp add: Let_def) (rule write_roi_rect_arc)

lemma write_rect_arc: "ROIEncoder_write (Rect (r\<lparr>arc := a\<rparr>)) = ROIEncoder_write (Rect r)"
  unfolding ROIEncoder_write_def by (subst roi_writer_arc) (rule refl)

lemma scalar_ustr: "list_all scalar_value (ustr s)"
  by (induction s)
    (simp_all add: ustr_simps scalar_value_def order_less_trans [OF nat_of_char_less_256])

lemma length_ustr: "length (ustr s) = length s"
  by (simp add: ustr_def)

lemma encodable_example:
  "length s < 100 \<Longrightarrow> encodable (rect_example\<lparr>name := ustr s, arc := a\<rparr>)"
  by (simp add: encodable_def rect_example_def int16_def int32_def scalar_ustr length_ustr)


lemma length_py_slice:
  fixes xs :: "'a list"
  defines "n \<equiv> int (length xs)"
  shows "length (py_slice xs a b) =
     nat (if b < 0 then max 0 (b + n) else min b n) - nat (if a < 0 then max 0 (a + n) else min a n)"
proof -
  define a' where "a' = (if a < 0 then max 0 (a + n) else min a n)"
  define b' where "b' = (if b < 0 then max 0 (b + n) else min b n)"
  have b: "nat b' \<le> length xs"
    unfolding b'_def n_def by (auto simp: min_def max_def)
  have "py_slice xs a b = take (nat b' - nat a') (drop (nat a') xs)"
    unfolding py_slice_def Let_def a'_def b'_def n_def ..
  then have "length (py_slice xs a b) = min (length xs - nat a') (nat b' - nat a')"
    by simp
  also have "\<dots> = nat b' - nat a'"
    using b by simp
  finally show ?thesis
    unfolding a'_def b'_def .
qed

lemma py_slice_full:
  assumes "0 < s"
  shows "length (py_slice xs a (a + int s)) = s \<longleftrightarrow>
     (0 \<le> a \<and> a + int s \<le> int (length xs)) \<or> (a + int s < 0 \<and> 0 \<le> a + int (length xs))"
proof -
  consider "0 \<le> a" | "a < 0" "0 \<le> a + int s" | "a + int s < 0"
    by linarith
  then show ?thesis
  proof cases
    case 1
    then show ?thesis
      unfolding length_py_slice using assms by (simp add: min_def) linarith
  next
    case 2
    then show ?thesis
      unfolding length_py_slice using assms by (simp add: min_def max_def) linarith
  next
    case 3
    then show ?thesis
      unfolding length_py_slice using assms by (simp add: max_def) linarith
  qed
qed

lemma unpack_isl: "isl (unpack f bs) \<longleftrightarrow> length bs \<noteq> fmt_size f"
  by (simp add: unpack_def split: fmt.splits)

lemma get_header2_fits:
  assumes "header1_dict k = None" "header2_dict k = Some t" "h ''HEADER2_OFFSET'' = Some (PyInt h2)"
    "fmt_size (htype t) = hsize t" "0 < hsize t"
  shows "\<not> isl (get_header data h k) \<longleftrightarrow> in_buffer data (int (hoffset t) + h2) (hsize t)"
proof -
  have "get_header data h k =
     unpack (htype t) (py_slice data (int (hoffset t) + h2) (int (hoffset t) + h2 + int (hsize t)))"
    using assms(1-3) by (simp add: get_header_def header_int_def get_var_def)
  then show ?thesis
    unfolding in_buffer_def using py_slice_full [OF assms(5), of data "int (hoffset t) + h2"]
    by (simp add: unpack_isl assms(4))
qed

lemma in_buffer_neg: "in_buffer data a s \<Longrightarrow> a < 0 \<Longrightarrow> a + int s < 0 \<and> 0 \<le> a + int (length data)"
  by (auto simp: in_buffer_def)

lemma in_buffer_pos: "in_buffer data a s \<Longrightarrow> 0 \<le> a \<Longrightarrow> a + int s \<le> int (length data)"
  by (auto simp: in_buffer_def)

lemma h2_fields_fit:
  assumes "h ''HEADER2_OFFSET'' = Some (PyInt h2)"
  shows "(\<forall>k\<in>set to_read_h2. \<not> isl (get_header data h k)) \<longleftrightarrow>
     in_buffer data (4 + h2) 4 \<and> in_buffer data (8 + h2) 4 \<and> in_buffer data (12 + h2) 4 \<and>
     in_buffer data (16 + h2) 4 \<and> in_buffer data (20 + h2) 4 \<and> in_buffer data (24 + h2) 4 \<and>
     in_buffer data (28 + h2) 2 \<and> in_buffer data (30 + h2) 1 \<and> in_buffer data (31 + h2) 1 \<and>
     in_buffer data (32 + h2) 4 \<and> in_buffer data (36 + h2) 4 \<and> in_buffer data (40 + h2) 4 \<and>
     in_buffer data (44 + h2) 4"
proof -
  note g = get_header2_fits [where h=h and ?h2.0=h2 and data=data, OF _ _ assms]
  show ?thesis
    using g [OF h1_none(1) h2_lookup(1)] g [OF h1_none(2) h2_lookup(2)]
      g [OF h1_none_h2(1) h2_lookup_all(1)] g [OF h1_none_h2(2) h2_lookup_all(2)]
      g [OF h1_none_h2(3) h2_lookup_all(3)] g [OF h1_none_h2(4) h2_lookup_all(4)]
      g [OF h1_none_h2(5) h2_lookup_all(5)] g [OF h1_none_h2(6) h2_lookup_all(6)]
      g [OF h1_none_h2(7) h2_lookup_all(7)] g [OF h1_none_h2(8) h2_lookup_all(8)]
      g [OF h1_none_h2(9) h2_lookup_all(9)] g [OF h1_none_h2(10) h2_lookup_all(10)]
      g [OF h1_none_h2(11) h2_lookup_all(11)]
    by (simp add: to_read_h2_def header2_fields_def fmt_size_def)
qed


lemma h2_ok_iff:
  assumes "h ''HEADER2_OFFSET'' = Some (PyInt h2)"
  shows "(\<forall>k\<in>set to_read_h2. \<not> isl (get_header data h k)) \<longleftrightarrow>
     (- 4 \<le> h2 \<and> h2 + 48 \<le> int (length data)) \<or>
     (h2 < - 48 \<and> 0 \<le> 4 + h2 + int (length data))"
    (is "?L \<longleftrightarrow> ?R")
proof
  assume ?L
  then have f: "in_buffer data (4 + h2) 4" "in_buffer data (8 + h2) 4" "in_buffer data (12 + h2) 4"
     "in_buffer data (16 + h2) 4" "in_buffer data (20 + h2) 4" "in_buffer data (24 + h2) 4"
     "in_buffer data (28 + h2) 2" "in_buffer data (30 + h2) 1" "in_buffer data (31 + h2) 1"
     "in_buffer data (32 + h2) 4" "in_buffer data (36 + h2) 4" "in_buffer data (40 + h2) 4"
     "in_buffer data (44 + h2) 4"
    unfolding h2_fields_fit [where h=h and ?h2.0=h2, OF assms] by simp_all
  show ?R
  proof (cases "- 4 \<le> h2")
    case True
    with in_buffer_pos [OF f(13)] show ?thesis by simp
  next
    case False
    then have "8 + h2 < 0" and l: "0 \<le> 4 + h2 + int (length data)"
      using in_buffer_neg [OF f(1)] by simp_all
    then have "12 + h2 < 0" using in_buffer_neg [OF f(2)] by simp
    then have "16 + h2 < 0" using in_buffer_neg [OF f(3)] by simp
    then have "20 + h2 < 0" using in_buffer_neg [OF f(4)] by simp
    then have "24 + h2 < 0" using in_buffer_neg [OF f(5)] by simp
    then have "28 + h2 < 0" using in_buffer_neg [OF f(6)] by simp
    then have "30 + h2 < 0" using in_buffer_neg [OF f(7)] by simp
    then have "31 + h2 < 0" using in_buffer_neg [OF f(8)] by simp
    then have "32 + h2 < 0" using in_buffer_neg [OF f(9)] by simp
    then have "36 + h2 < 0" using in_buffer_neg [OF f(10)] by simp
    then have "40 + h2 < 0" using in_buffer_neg [OF f(11)] by simp
    then have "44 + h2 < 0" using in_buffer_neg [OF f(12)] by simp
    then have "48 + h2 < 0" using in_buffer_neg [OF f(13)] by simp
    with l show ?thesis by simp
  qed
next
  assume ?R
  then show ?L
    unfolding h2_fields_fit [where h=h and ?h2.0=h2, OF assms] in_buffer_def by auto
qed

lemma read_header_iff:
  "(\<exists>h. read_header data = Inr h) \<longleftrightarrow>
     take 4 data = magic \<and> 64 \<le> length data \<and>
     ((- 4 \<le> int_at data 60 4 \<and> int_at data 60 4 + 48 \<le> int (length data)) \<or>
      (int_at data 60 4 < - 48 \<and> 0 \<le> 4 + int_at data 60 4 + int (length data)))"
    (is "?L \<longleftrightarrow> ?M \<and> ?N \<and> ?R")
proof
  assume ?L
  then obtain h where h: "read_header data = Inr h" ..
  then obtain ha v hc where
        a: "set_headers data h1_first Map.empty = Inr ha"
    and b: "get_header data ha ''HEADER2_OFFSET'' = Inr v"
    and c: "set_headers data to_read_h2 (ha(''HEADER2_OFFSET'' \<mapsto> v)) = Inr hc"
    unfolding read_header_split by blast
  from read_header_fwd [OF h] have m: ?M ?N by simp_all
  from b have v: "v = PyInt (int_at data 60 4)"
    by (auto simp: gh1 unpack_simps int_at_def split: if_splits)
  define hb where "hb = ha(''HEADER2_OFFSET'' \<mapsto> v)"
  have hb: "hb ''HEADER2_OFFSET'' = Some (PyInt (int_at data 60 4))"
    by (simp add: hb_def v)
  from c have "\<forall>k\<in>set to_read_h2. \<not> isl (get_header data hb k)"
    unfolding set_headers_eq [OF h2o_notin(2)] hb_def by simp
  then have ?R
    unfolding h2_ok_iff [where h=hb and ?h2.0="int_at data 60 4", OF hb] .
  with m show "?M \<and> ?N \<and> ?R" by simp
next
  assume r: "?M \<and> ?N \<and> ?R"
  define ha where "ha = (\<lambda>k. if k \<in> set h1_first then Some (projr (get_header data Map.empty k)) else None)"
  have a: "set_headers data h1_first Map.empty = Inr ha"
    unfolding set_headers_eq [OF h2o_notin(1)] h1_first_ok ha_def using r by simp
  from r have l: "64 \<le> length data"
    by simp
  have b: "get_header data ha ''HEADER2_OFFSET'' = Inr (PyInt (int_at data 60 4))"
    using l by (simp add: gh1 unpack_simps int_at_def)
  define hb where "hb = ha(''HEADER2_OFFSET'' \<mapsto> PyInt (int_at data 60 4))"
  have hb: "hb ''HEADER2_OFFSET'' = Some (PyInt (int_at data 60 4))"
    by (simp add: hb_def)
  from r have "\<forall>k\<in>set to_read_h2. \<not> isl (get_header data hb k)"
    unfolding h2_ok_iff [where h=hb and ?h2.0="int_at data 60 4", OF hb] by simp
  then have "\<exists>hc. set_headers data to_read_h2 hb = Inr hc"
    unfolding set_headers_eq [OF h2o_notin(2)] by simp
  then show ?L
    unfolding read_header_split using a b r by (auto simp: hb_def)
qed

lemma bitlen_le: "m < 2 ^ k \<Longrightarrow> bitlen m \<le> k"
proof (induction k arbitrary: m)
  case 0
  then show ?case by (simp add: bitlen.simps)
next
  case (Suc k)
  then have "m div 2 < 2 ^ k" by simp
  from Suc.IH [OF this] show ?case
    by (subst bitlen.simps) simp
qed



lemma float_value_exact: "\<bar>c\<bar> < 2 ^ 53 \<Longrightarrow> float_value c = c"
proof -
  assume a: "\<bar>c\<bar> < 2 ^ 53"
  then have "nat \<bar>c\<bar> < 2 ^ 53"
    by (simp add: nat_less_iff)
  then have "bitlen (nat \<bar>c\<bar>) \<le> 53" by (rule bitlen_le)
  then show ?thesis
    by (simp add: float_value_def round_to_bits_def sgn_if)
qed
















lemma array_values_not_Nil [simp]: "array_values s \<noteq> []"
  by (simp add: array_values_def)


















section \<open>The claims\<close>

subsection \<open>Bounding box of a shape built without bounds\<close>

text \<open>
  C9. A shape ROI constructed from two coordinate arrays without explicit bounds gets
  \<open>top = min(x_coords)\<close>, \<open>left = min(x_coords)\<close>, \<open>bottom = max(x_coords)\<close> and
  \<open>right = max(y_coords)\<close>: three bounds come from the x coordinates and one from the y
  coordinates, as the constructor is written. The construction succeeds exactly when both
  arrays are non-empty.
\<close>

theorem shape_default_bounds:
  "ROIShape_init ndarray_min ndarray_max xs ys nm pos None None None None = Inr s \<longleftrightarrow>
     xs \<noteq> [] \<and> ys \<noteq> [] \<and>
     s = \<lparr>top = Min (set xs), left = Min (set xs), bottom = Max (set xs), right = Max (set ys),
          name = nm, position = pos, x_coords = xs, y_coords = ys\<rparr>"
  by (auto simp: ROIShape_init_def or_else_def ndarray_min_eq ndarray_max_eq)

theorem shape_default_bounds_witness:
  "ROIShape_init ndarray_min ndarray_max [3, 1, 2] [7, 9, 8] (ustr ''roi-0001-0000'') 1 None None None None =
     Inr \<lparr>top = 1, left = 1, bottom = 3, right = 9, name = ustr ''roi-0001-0000'', position = 1,
          x_coords = [3, 1, 2], y_coords = [7, 9, 8]\<rparr>"
  using shape_default_bounds [of "[3, 1, 2]" "[7, 9, 8]" "ustr ''roi-0001-0000''" 1
      "\<lparr>top = 1, left = 1, bottom = 3, right = 9, name = ustr ''roi-0001-0000'', position = 1,
        x_coords = [3, 1, 2], y_coords = [7, 9, 8]\<rparr>"]
  by simp

subsection \<open>Kinds without a writer\<close>

text \<open>
  C6, as the code has it. For each of the ten kinds whose writer only raises (polygon, oval,
  line, freeline, polyline, no_roi, freehand, traced, angle, point), \<open>write\<close> fails with
  NotImplementedError and a message that names the kind, after it has written the 128 zero
  bytes, the magic and the version to the file: the file then holds this 128-byte header
  and nothing of the ROI.
\<close>

theorem unsupported_kind_fails_after_header:
  assumes "map_of unimplemented t = Some w"
  shows "ROIEncoder_write (Other t r) =
     (\<lparr>f_obj = header_only, header2_offset = 64\<rparr>,
      Some (NotImplementedError (''Writing roi type '' @ w @ '' is not implemented'')))"
  using assms by (rule write_unimplemented)

theorem unsupported_kind_fails_after_header_witness:
  "map_of unimplemented ''oval'' = Some ''oval'' \<and>
   ROIEncoder_write (Other ''oval''
       \<lparr>top = 10, left = 5, bottom = 50, right = 40, name = ustr ''a'', position = 1\<rparr>) =
     (\<lparr>f_obj = header_only, header2_offset = 64\<rparr>,
      Some (NotImplementedError ''Writing roi type oval is not implemented''))"
proof -
  have m: "map_of unimplemented ''oval'' = Some ''oval''"
    by (simp add: unimplemented_def)
  show ?thesis
    using m unsupported_kind_fails_after_header [OF m] by simp
qed

text \<open>
  C6 as stated fails: encoding an oval leaves 128 bytes in the output file, the magic
  \<^verbatim>\<open>Iout\<close> among them.
\<close>

theorem unsupported_kind_partial_bytes:
  "snd (ROIEncoder_write (Other ''oval''
       \<lparr>top = 10, left = 5, bottom = 50, right = 40, name = ustr ''a'', position = 1\<rparr>)) =
     Some (NotImplementedError ''Writing roi type oval is not implemented'') \<and>
   length (f_obj (fst (ROIEncoder_write (Other ''oval''
       \<lparr>top = 10, left = 5, bottom = 50, right = 40, name = ustr ''a'', position = 1\<rparr>)))) = 128 \<and>
   take 4 (f_obj (fst (ROIEncoder_write (Other ''oval''
       \<lparr>top = 10, left = 5, bottom = 50, right = 40, name = ustr ''a'', position = 1\<rparr>)))) = magic"
proof -
  have m: "map_of unimplemented ''oval'' = Some ''oval''"
    by (simp add: unimplemented_def)
  show ?thesis
    by (simp add: write_unimplemented [OF m] header_only_def magic_def)
qed

subsection \<open>The magic number\<close>

text \<open>
  C4, with the short buffers. A buffer whose first four bytes are not \<^verbatim>\<open>Iout\<close> is never
  parsed: \<open>read\<close> fails with \<^verbatim>\<open>IOError('Invalid ROI file, magic number mismatch')\<close> when the
  buffer has at least four bytes, and with struct.error when it has fewer, whatever the
  path and the rest of the buffer. When the first four bytes are the magic, the header
  reader checks nothing else: the only way it fails is struct.error, for a field that lies
  outside the buffer. It succeeds exactly when the buffer has the magic, the 64 bytes of
  header 1 and, at HEADER2_OFFSET (the int32 at byte 60, counted from the end of the buffer
  when it is negative), the bytes 4 to 47 of header 2, whatever these bytes are.
\<close>

theorem magic_is_the_only_check:
  "(take 4 data \<noteq> magic \<longrightarrow>
      ROIDecoder_read p data =
        Inl (if 4 \<le> length data then IOError ''Invalid ROI file, magic number mismatch''
             else struct_error)) \<and>
   (take 4 data = magic \<longrightarrow> (\<forall>e. read_header data = Inl e \<longrightarrow> e = struct_error)) \<and>
   ((\<exists>h. read_header data = Inr h) \<longleftrightarrow>
      take 4 data = magic \<and> 64 \<le> length data \<and>
      ((- 4 \<le> int_at data 60 4 \<and> int_at data 60 4 + 48 \<le> int (length data)) \<or>
       (int_at data 60 4 < - 48 \<and> 0 \<le> 4 + int_at data 60 4 + int (length data))))"
proof (intro conjI impI allI)
  assume "take 4 data \<noteq> magic"
  then show "ROIDecoder_read p data =
        Inl (if 4 \<le> length data then IOError ''Invalid ROI file, magic number mismatch''
             else struct_error)"
    by (simp add: ROIDecoder_read_def read_header_bad_magic read_header_short)
next
  fix e assume "take 4 data = magic" "read_header data = Inl e"
  then show "e = struct_error" by (rule read_header_Inl)
next
  show "(\<exists>h. read_header data = Inr h) \<longleftrightarrow>
      take 4 data = magic \<and> 64 \<le> length data \<and>
      ((- 4 \<le> int_at data 60 4 \<and> int_at data 60 4 + 48 \<le> int (length data)) \<or>
       (int_at data 60 4 < - 48 \<and> 0 \<le> 4 + int_at data 60 4 + int (length data)))"
    by (rule read_header_iff)
qed

theorem magic_is_the_only_check_witness:
  "ROIDecoder_read (ustr ''a.roi'') [0, 0, 0, 0] =
     Inl (IOError ''Invalid ROI file, magic number mismatch'') \<and>
   (\<exists>h. read_header header_only = Inr h)"
proof -
  have "take 4 [0, 0, 0, 0 :: byte] \<noteq> magic"
    by (simp add: magic_def)
  moreover have "take 4 header_only = magic \<and> 64 \<le> length header_only \<and>
      - 4 \<le> int_at header_only 60 4 \<and> int_at header_only 60 4 + 48 \<le> int (length header_only)"
    by (simp add: header_only_facts)
  ultimately show ?thesis
    using magic_is_the_only_check [of "[0, 0, 0, 0]" "ustr ''a.roi''"]
      magic_is_the_only_check [of header_only "ustr ''a.roi''"]
    by simp
qed

text \<open>
  C4 as stated fails on a buffer of fewer than four bytes: the first three bytes of the
  magic, and the empty buffer, differ from the magic in their first four bytes and are
  rejected with struct.error, raised by the unpacking of the magic before the comparison.
\<close>

theorem short_buffer_struct_error:
  "take 4 [73, 111, 117 :: byte] \<noteq> magic \<and>
   ROIDecoder_read (ustr ''a.roi'') [73, 111, 117] = Inl struct_error \<and>
   take 4 ([] :: byte list) \<noteq> magic \<and>
   ROIDecoder_read (ustr ''a.roi'') [] = Inl struct_error"
  by (simp add: magic_def ROIDecoder_read_def read_header_short)

subsection \<open>The composite branch\<close>

text \<open>
  C5, for a buffer whose header can be read. When \<open>read_header\<close> succeeds and the
  SHAPE_ROI_SIZE field (int32 at byte 36) is positive, \<open>read\<close> returns what
  \<open>_read_roi_shape\<close> returns, whatever the type tag, and the result is
  \<^verbatim>\<open>Exception('Invalid composite ROI type')\<close> exactly when the tag at byte 6 is not 1.
\<close>

theorem composite_branch:
  assumes "read_header data = Inr h" "0 < int_at data 36 4"
  shows "ROIDecoder_read p data = read_roi_shape data (fst (splitext (basename p))) h \<and>
     (ROIDecoder_read p data = Inl (Exception ''Invalid composite ROI type'') \<longleftrightarrow>
      int_at data 6 1 \<noteq> 1)"
  using read_composite [OF assms] read_roi_shape_tag read_header_fwd [OF assms(1)]
  by simp

theorem composite_branch_witness:
  "ROIDecoder_read (ustr ''a.roi'') composite_oval = Inl (Exception ''Invalid composite ROI type'')"
proof -
  have "\<exists>h. read_header composite_oval = Inr h"
    by (rule read_header_bwd) (simp_all add: composite_oval_facts)
  then obtain h where h: "read_header composite_oval = Inr h" ..
  have "0 < int_at composite_oval 36 4"
    by (simp add: composite_oval_facts)
  from composite_branch [OF h this, of "ustr ''a.roi''"]
  have "ROIDecoder_read (ustr ''a.roi'') composite_oval = Inl (Exception ''Invalid composite ROI type'') \<longleftrightarrow>
      int_at composite_oval 6 1 \<noteq> 1"
    by (rule conjunct2)
  with composite_oval_facts(5) show ?thesis
    by simp
qed

text \<open>
  C5 as stated fails on a buffer that ends before header 2: with the magic, the tag 2 and
  SHAPE_ROI_SIZE = 1, a buffer of 64 bytes whose HEADER2_OFFSET is 64 is rejected with
  struct.error by the header reader, before the branch is taken.
\<close>

theorem composite_truncated_header:
  "take 4 truncated_composite = magic \<and> int_at truncated_composite 36 4 = 1 \<and>
   int_at truncated_composite 6 1 = 2 \<and>
   ROIDecoder_read (ustr ''a.roi'') truncated_composite = Inl struct_error"
proof -
  have "read_header truncated_composite \<noteq> Inr h" for h
    using read_header_needs_h2 [of truncated_composite h] by (auto simp: truncated_facts)
  then obtain e where e: "read_header truncated_composite = Inl e"
    by (cases "read_header truncated_composite") auto
  with read_header_Inl [OF truncated_facts(1) e] truncated_facts show ?thesis
    by (simp add: ROIDecoder_read_def)
qed

subsection \<open>Round trip of a rectangle\<close>




subsection \<open>The corner arc of a rectangle\<close>

text \<open>
  C10. The encoder never writes ROUNDED_RECT_ARC_SIZE: what \<open>write\<close> does for a rectangle
  does not depend on its arc, the bytes 54 and 55 of the file are zero whether or not
  \<open>write\<close> succeeds, and when it succeeds \<open>read\<close> returns the rectangle with arc 0 (and
  the name of the path it is read from).
\<close>

theorem rect_arc_not_written:
  "ROIEncoder_write (Rect (r\<lparr>arc := a\<rparr>)) = ROIEncoder_write (Rect r) \<and>
   take 2 (drop 54 (f_obj (fst (ROIEncoder_write (Rect r))))) = [0, 0] \<and>
   (snd (ROIEncoder_write (Rect r)) = None \<longrightarrow>
      ROIDecoder_read p (f_obj (fst (ROIEncoder_write (Rect r)))) =
        Inr (Rect (r\<lparr>name := fst (splitext (basename p)), arc := 0\<rparr>)))"
proof (intro conjI impI)
  show "ROIEncoder_write (Rect (r\<lparr>arc := a\<rparr>)) = ROIEncoder_write (Rect r)"
    by (rule write_rect_arc)
  show "take 2 (drop 54 (f_obj (fst (ROIEncoder_write (Rect r))))) = [0, 0]"
    by (rule rect_arc_bytes)
  assume "snd (ROIEncoder_write (Rect r)) = None"
  then have "encodable r"
    by (simp add: write_rect_iff)
  then show "ROIDecoder_read p (f_obj (fst (ROIEncoder_write (Rect r)))) =
        Inr (Rect (r\<lparr>name := fst (splitext (basename p)), arc := 0\<rparr>))"
    by (simp add: write_rect read_rect_file)
qed

theorem rect_arc_not_written_witness:
  "snd (ROIEncoder_write (Rect (rect_example\<lparr>arc := 20\<rparr>))) = None \<and>
   ROIDecoder_read (ustr ''roi-0001-0000.roi'')
       (f_obj (fst (ROIEncoder_write (Rect (rect_example\<lparr>arc := 20\<rparr>))))) =
     Inr (Rect rect_example)"
proof -
  have "encodable (rect_example\<lparr>arc := 20\<rparr>)"
    using encodable_example [of "''roi-0001-0000''" 20] by (simp add: rect_example_def)
  then have s: "snd (ROIEncoder_write (Rect (rect_example\<lparr>arc := 20\<rparr>))) = None"
    by (simp add: write_rect_iff)
  have n: "fst (splitext (basename (ustr ''roi-0001-0000.roi''))) = ustr ''roi-0001-0000''"
    by (simp add: splitext_def basename_def rfind_def py_slice_def Let_def ustr_simps sep_def
        extsep_def)
  from rect_arc_not_written [where r = "rect_example\<lparr>arc := 20\<rparr>" and a = 20
      and p = "ustr ''roi-0001-0000.roi''"] s n
  show ?thesis
    by (simp add: rect_example_def)
qed

subsection \<open>The shape array\<close>




subsection \<open>Round trip of a shape\<close>




end
